theory Spec2Isabelle
  imports Main
begin

section \<open>Python string and list primitives used by legacy\_parser.py\<close>

text \<open>
  Strings are lists of characters; a character stands for a code point below 256.
  The three Pick delimiters are the class constants \<open>AM\<close>, \<open>VM\<close> and \<open>SM\<close>.
\<close>

definition AM :: char where
  "AM = CHR ''^''"

definition VM :: char where
  "VM = CHR '']''"

definition SM :: char where
  "SM = CHR 0x5C"

definition newline :: char where
  "newline = CHR 0x0A"

text \<open>\<open>str.isspace\<close> on one character (code points below 256).\<close>

definition isspace :: "char \<Rightarrow> bool" where
  "isspace c =
     (let n = (of_char c :: nat)
      in (9 \<le> n \<and> n \<le> 13) \<or> (28 \<le> n \<and> n \<le> 32) \<or> n = 133 \<or> n = 160)"

text \<open>\<open>s.strip()\<close>: leading and trailing whitespace removed.\<close>

definition py_strip :: "string \<Rightarrow> string" where
  "py_strip s = rev (dropWhile isspace (rev (dropWhile isspace s)))"

text \<open>\<open>s.startswith(p)\<close>.\<close>

definition startswith :: "string \<Rightarrow> string \<Rightarrow> bool" where
  "startswith s p = (take (length p) s = p)"

text \<open>\<open>s.split(c)\<close> for a one-character separator: never the empty list.\<close>

fun py_split :: "char \<Rightarrow> string \<Rightarrow> string list" where
  "py_split c [] = [[]]"
| "py_split c (x # xs) =
     (if x = c then [] # py_split c xs
      else (let r = py_split c xs in (x # hd r) # tl r))"

text \<open>\<open>s.split(c, 1)\<close>: at most one split, at the first occurrence of the separator.\<close>

definition split_once :: "char \<Rightarrow> string \<Rightarrow> string list" where
  "split_once c s =
     (case dropWhile (\<lambda>x. x \<noteq> c) s of
        [] \<Rightarrow> [s]
      | _ # rest \<Rightarrow> [takeWhile (\<lambda>x. x \<noteq> c) s, rest])"

text \<open>\<open>sep.join(xs)\<close>.\<close>

fun py_join :: "string \<Rightarrow> string list \<Rightarrow> string" where
  "py_join sep [] = []"
| "py_join sep [x] = x"
| "py_join sep (x # y # ys) = x @ sep @ py_join sep (y # ys)"

datatype py_error = FileNotFoundError | IndexError | ValueError

text \<open>\<open>xs[i]\<close>: a negative index counts from the end; out of range raises IndexError.\<close>

definition getitem :: "'a list \<Rightarrow> int \<Rightarrow> py_error + 'a" where
  "getitem xs i =
     (let j = (if i < 0 then i + int (length xs) else i)
      in if j < 0 \<or> int (length xs) \<le> j then Inl IndexError else Inr (xs ! nat j))"

text \<open>\<open>xs[i] = v\<close>, with the same index rules.\<close>

definition setitem :: "'a list \<Rightarrow> int \<Rightarrow> 'a \<Rightarrow> py_error + 'a list" where
  "setitem xs i v =
     (let j = (if i < 0 then i + int (length xs) else i)
      in if j < 0 \<or> int (length xs) \<le> j then Inl IndexError else Inr (xs[nat j := v]))"

text \<open>
  A file holds its text as it is on disk. \<open>open(path, 'r')\<close> reads it in text mode with
  universal newlines: a carriage return followed by a line feed, and a carriage return
  alone, are both delivered as one line feed.
\<close>

definition carriage_return :: char where
  "carriage_return = CHR 0x0D"

fun universal_newlines :: "string \<Rightarrow> string" where
  "universal_newlines [] = []"
| "universal_newlines [c] = [if c = carriage_return then newline else c]"
| "universal_newlines (c # d # ds) =
     (if c = carriage_return
      then (if d = newline then newline # universal_newlines ds
            else newline # universal_newlines (d # ds))
      else c # universal_newlines (d # ds))"

text \<open>
  A delivered text cut into lines: each line keeps its terminating line feed, the last
  line may have none.
\<close>

fun split_lines :: "string \<Rightarrow> string list" where
  "split_lines [] = []"
| "split_lines (c # cs) =
     (if c = newline then [c] # split_lines cs
      else (case split_lines cs of [] \<Rightarrow> [[c]] | l # ls \<Rightarrow> (c # l) # ls))"

text \<open>
  \<open>f.readlines()\<close> and \<open>for line in f\<close> on a file opened for reading. (Writing in text
  mode, \<open>open(path, 'w')\<close>, puts the characters on disk as they are: the line separator
  of the platform is taken to be the line feed.)
\<close>

definition readlines :: "string \<Rightarrow> string list" where
  "readlines content = split_lines (universal_newlines content)"

section \<open>The record and its backing store\<close>

record PickRecord =
  record_key :: "string option"
  raw_data :: "string option"
  attributes :: "string list"

text \<open>
  The file system as far as the class uses it: \<open>DATA_FILE\<close> and its \<open>.bak\<close> sibling,
  each absent or holding a text.
\<close>

record store =
  data_file :: "string option"
  bak_file :: "string option"

text \<open>\<open>PickRecord.__init__\<close>: the attributes are split only from a truthy \<open>raw_data\<close>.\<close>

definition init :: "string option \<Rightarrow> string option \<Rightarrow> PickRecord" where
  "init key raw =
     \<lparr>record_key = key, raw_data = raw,
      attributes = (case raw of
                      None \<Rightarrow> []
                    | Some s \<Rightarrow> if s \<noteq> [] then py_split AM s else [])\<rparr>"

text \<open>The loop of \<open>PickRecord.read\<close> over the lines of the open file.\<close>

fun scan :: "string \<Rightarrow> string list \<Rightarrow> py_error + PickRecord" where
  "scan key [] = Inr (init (Some key) None)"
| "scan key (l # ls) =
     (let line = py_strip l
      in if line \<noteq> [] \<and> startswith line (key @ [AM])
         then (case getitem (split_once AM line) 1 of
                 Inl e \<Rightarrow> Inl e
               | Inr raw_attributes \<Rightarrow> Inr (init (Some key) (Some raw_attributes)))
         else scan key ls)"

text \<open>\<open>PickRecord.read\<close>: a missing file is caught and gives the not-found record.\<close>

definition read :: "store \<Rightarrow> string \<Rightarrow> py_error + PickRecord" where
  "read st key =
     (case data_file st of
        None \<Rightarrow> Inr (init (Some key) None)
      | Some content \<Rightarrow> scan key (readlines content))"

text \<open>
  The body of \<open>PickRecord.extract\<close> inside its \<open>try\<close>. The positions are integers;
  \<open>value_pos\<close> and \<open>subvalue_pos\<close> default to \<open>None\<close> and are tested for truth, so
  that \<open>0\<close> counts as not given.
\<close>

definition extract_body :: "PickRecord \<Rightarrow> int \<Rightarrow> int option \<Rightarrow> int option \<Rightarrow> py_error + string" where
  "extract_body r attribute_pos value_pos subvalue_pos =
     (let attr_index = attribute_pos - 1
      in if 0 \<le> attr_index \<and> attr_index < int (length (attributes r))
         then (case getitem (attributes r) attr_index of
                 Inl e \<Rightarrow> Inl e
               | Inr attr \<Rightarrow>
                   if attr = [] then Inr []
                   else (case value_pos of
                           None \<Rightarrow> Inr attr
                         | Some vp \<Rightarrow>
                             if vp = 0 then Inr attr
                             else (let values = py_split VM attr; value_index = vp - 1
                                   in if 0 \<le> value_index \<and> value_index < int (length values)
                                      then (case getitem values value_index of
                                              Inl e \<Rightarrow> Inl e
                                            | Inr val \<Rightarrow>
                                                (case subvalue_pos of
                                                   None \<Rightarrow> Inr val
                                                 | Some sp \<Rightarrow>
                                                     if sp = 0 then Inr val
                                                     else (let svs = py_split SM val; sindex = sp - 1
                                                           in if 0 \<le> sindex \<and> sindex < int (length svs)
                                                              then getitem svs sindex
                                                              else Inr [])))
                                      else Inr [])))
         else Inr [])"

text \<open>
  \<open>PickRecord.extract\<close> (the name \<open>extract\<close> is a command of Isabelle, hence the
  suffix): any exception of the body is answered with the empty string.
\<close>

definition extract_pos :: "PickRecord \<Rightarrow> int \<Rightarrow> int option \<Rightarrow> int option \<Rightarrow> string" where
  "extract_pos r attribute_pos value_pos subvalue_pos =
     (case extract_body r attribute_pos value_pos subvalue_pos of
        Inl e \<Rightarrow> []
      | Inr s \<Rightarrow> s)"

section \<open>Projection: \<open>PickRecord.to_json\<close>\<close>

text \<open>
  \<open>decimal.Decimal\<close> and \<open>datetime.strptime(., "%Y-%m-%d").date()\<close> belong to Python's
  library, not to the repository: they are parameters. \<open>Decimal b\<close> is \<open>None\<close> where the
  library raises InvalidOperation, \<open>strptime_date d\<close> is \<open>None\<close> where it raises
  ValueError; \<open>str_decimal\<close> and \<open>str_date\<close> are \<open>str\<close> on the two types.
\<close>

record ('n, 'd) pylib =
  Decimal :: "string \<Rightarrow> 'n option"
  str_decimal :: "'n \<Rightarrow> string"
  strptime_date :: "string \<Rightarrow> 'd option"
  str_date :: "'d \<Rightarrow> string"

text \<open>An element of \<open>parsed_balances\<close> or \<open>parsed_dates\<close>: the string kept, or the parsed value.\<close>

datatype 'a parsed = Kept string | Parsed 'a

definition py_str :: "('a \<Rightarrow> string) \<Rightarrow> 'a parsed \<Rightarrow> string" where
  "py_str str_a p = (case p of Kept s \<Rightarrow> s | Parsed a \<Rightarrow> str_a a)"

text \<open>\<open>str(t.get(field))\<close>: a missing field is \<open>None\<close>, whose \<open>str\<close> is \<open>'None'\<close>.\<close>

definition str_get :: "('a \<Rightarrow> string) \<Rightarrow> 'a parsed option \<Rightarrow> string" where
  "str_get str_a v = (case v of None \<Rightarrow> ''None'' | Some p \<Rightarrow> py_str str_a p)"

text \<open>The dictionary \<open>tx\<close> of the pairing loop: each of its two keys is set or missing.\<close>

record ('n, 'd) tx =
  amount :: "'n parsed option"
  date :: "'d parsed option"

record projection =
  client_id :: "string option"
  client_name :: string
  current_balance :: "string option"
  legacy_balances_history :: "string list"
  transaction_dates :: "string list"
  transactions :: "(string \<times> string) list list"
  data_source :: string

text \<open>Lines 95 to 99: the multi-values of an attribute, empty entries dropped.\<close>

definition multivalues :: "PickRecord \<Rightarrow> int \<Rightarrow> string list" where
  "multivalues r pos =
     (let raw = extract_pos r pos None None
      in filter (\<lambda>b. b \<noteq> []) (if raw \<noteq> [] then py_split VM raw else []))"

text \<open>Lines 101 to 115: each entry parsed when asked, kept as it is when parsing fails.\<close>

definition parse_each :: "(string \<Rightarrow> 'a option) \<Rightarrow> bool \<Rightarrow> string list \<Rightarrow> 'a parsed list" where
  "parse_each conv flag xs =
     map (\<lambda>b. if flag then (case conv b of None \<Rightarrow> Kept b | Some v \<Rightarrow> Parsed v) else Kept b) xs"

definition parsed_balances :: "('n, 'd) pylib \<Rightarrow> bool \<Rightarrow> PickRecord \<Rightarrow> 'n parsed list" where
  "parsed_balances lib parse_numbers r = parse_each (Decimal lib) parse_numbers (multivalues r 2)"

definition parsed_dates :: "('n, 'd) pylib \<Rightarrow> bool \<Rightarrow> PickRecord \<Rightarrow> 'd parsed list" where
  "parsed_dates lib parse_dates r = parse_each (strptime_date lib) parse_dates (multivalues r 3)"

text \<open>Lines 117 to 126: the pairing loop over \<open>range(length)\<close>.\<close>

definition pair_up :: "'n parsed list \<Rightarrow> 'd parsed list \<Rightarrow> ('n, 'd) tx list" where
  "pair_up pbs pds =
     map (\<lambda>i. \<lparr>amount = (if i < length pbs then Some (pbs ! i) else None),
               date = (if i < length pds then Some (pds ! i) else None)\<rparr>)
         [0 ..< max (length pbs) (length pds)]"

text \<open>Lines 128 to 135.\<close>

definition select_current :: "string \<Rightarrow> 'n parsed list \<Rightarrow> 'n parsed option" where
  "select_current latest_balance pbs =
     (if pbs \<noteq> []
      then (if latest_balance = ''first'' then Some (hd pbs) else Some (last pbs))
      else None)"

definition to_json :: "('n, 'd) pylib \<Rightarrow> PickRecord \<Rightarrow> bool \<Rightarrow> bool \<Rightarrow> string \<Rightarrow> projection option" where
  "to_json lib r parse_numbers parse_dates latest_balance =
     (if raw_data r = None \<or> raw_data r = Some [] then None
      else
        (let pbs = parsed_balances lib parse_numbers r;
             pds = parsed_dates lib parse_dates r;
             txs = pair_up pbs pds
         in Some \<lparr>client_id = record_key r,
                  client_name = extract_pos r 1 None None,
                  current_balance = map_option (py_str (str_decimal lib)) (select_current latest_balance pbs),
                  legacy_balances_history = map (py_str (str_decimal lib)) pbs,
                  transaction_dates = map (py_str (str_date lib)) pds,
                  transactions =
                    map (\<lambda>t. [(''amount'', str_get (str_decimal lib) (amount t)),
                              (''date'', str_get (str_date lib) (date t))]) txs,
                  data_source = ''Simulated Universe/Pick Flat File''\<rparr>))"

section \<open>\<open>PickRecord.update\<close>\<close>

text \<open>
  A value of the attribute map: a list (or tuple) of scalars, or anything else. \<open>str\<close> on
  the scalars is Python's, a parameter.
\<close>

datatype 'v attr_value = Scalar 'v | Sequence "'v list"

text \<open>
  The attribute map is a dictionary with integer keys, in its insertion order; as a
  dictionary its keys are distinct.
\<close>

type_synonym 'v attribute_map = "(int \<times> 'v attr_value) list"

definition render :: "('v \<Rightarrow> string) \<Rightarrow> 'v attr_value \<Rightarrow> string" where
  "render str v =
     (case v of
        Sequence xs \<Rightarrow> py_join [VM] (map str xs)
      | Scalar x \<Rightarrow> str x)"

text \<open>\<open>max((k for k in attribute_map), default=0)\<close>.\<close>

definition max_index :: "'v attribute_map \<Rightarrow> int" where
  "max_index m = (case map fst m of [] \<Rightarrow> 0 | k # ks \<Rightarrow> fold max ks k)"

text \<open>Lines 158 to 162: the copy of the attributes, extended with empty strings up to \<open>mx\<close>.\<close>

definition pad_attrs :: "string list \<Rightarrow> int \<Rightarrow> string list" where
  "pad_attrs attrs mx =
     (if mx > int (length attrs)
      then attrs @ replicate (nat (mx - int (length attrs))) []
      else attrs)"

text \<open>Lines 164 to 169: the assignments \<open>attrs[k - 1] = ...\<close>, in the map's order.\<close>

fun assign_attrs :: "('v \<Rightarrow> string) \<Rightarrow> 'v attribute_map \<Rightarrow> string list \<Rightarrow> py_error + string list" where
  "assign_attrs str [] attrs = Inr attrs"
| "assign_attrs str ((k, v) # m) attrs =
     (case setitem attrs (k - 1) (render str v) of
        Inl e \<Rightarrow> Inl e
      | Inr attrs' \<Rightarrow> assign_attrs str m attrs')"

text \<open>Lines 181 to 186: the lines written back one by one; \<open>out\<close> is what the file holds so far.\<close>

fun write_lines :: "string \<Rightarrow> string \<Rightarrow> string list \<Rightarrow> string \<Rightarrow> string" where
  "write_lines key updated_line [] out = out"
| "write_lines key updated_line (line # lines) out =
     write_lines key updated_line lines
       (out @ (if startswith (py_strip line) (key @ [AM]) then updated_line else line))"

definition update :: "('v \<Rightarrow> string) \<Rightarrow> store \<Rightarrow> PickRecord \<Rightarrow> 'v attribute_map \<Rightarrow> py_error + (store \<times> PickRecord)" where
  "update str st r attribute_map =
     (case record_key r of
        None \<Rightarrow> Inl ValueError
      | Some key \<Rightarrow>
          if key = [] then Inl ValueError
          else
            (let attrs = pad_attrs (attributes r) (max_index attribute_map)
             in case assign_attrs str attribute_map attrs of
                  Inl e \<Rightarrow> Inl e
                | Inr attrs \<Rightarrow>
                    (let new_raw = py_join [AM] attrs
                     in case data_file st of
                          None \<Rightarrow> Inl FileNotFoundError
                        | Some content \<Rightarrow>
                            (let st = st\<lparr>bak_file := Some content\<rparr>;
                                 updated_line = key @ [AM] @ new_raw @ [newline];
                                 lines = readlines content;
                                 st = st\<lparr>data_file := Some (write_lines key updated_line lines [])\<rparr>
                             in Inr (st, r\<lparr>raw_data := Some new_raw,
                                           attributes := py_split AM new_raw\<rparr>)))))"

text \<open>
  The rewrite as the specification words it, for comparison with \<open>write_lines\<close>: only the
  first line whose stripped content starts with \<open>key + AM\<close> is replaced.
\<close>

fun replace_first :: "string \<Rightarrow> string \<Rightarrow> string list \<Rightarrow> string list" where
  "replace_first key updated_line [] = []"
| "replace_first key updated_line (l # ls) =
     (if startswith (py_strip l) (key @ [AM]) then updated_line # ls
      else l # replace_first key updated_line ls)"

section \<open>The two legacy endpoints of app.py\<close>

text \<open>
  A response is the JSON body handed to \<open>jsonify\<close> and the status code. An error detail
  \<open>str(e)\<close> is kept as the exception itself.
\<close>

datatype body =
  Message string
| MessageDetail string py_error
| StatusMessage nat string
| Json "projection option"
| Unhandled py_error

type_synonym response = "body \<times> nat"

text \<open>\<open>not_found()\<close>; \<open>url\<close> is \<open>request.url\<close>.\<close>

definition not_found :: "string \<Rightarrow> response" where
  "not_found url = (StatusMessage 404 (''Not found '' @ url), 404)"

text \<open>
  \<open>s.lower()\<close> on code points below 256: the letters A to Z, and the capital letters
  from 192 to 222 but the multiplication sign 215, move up by 32.
\<close>

definition py_lower :: "string \<Rightarrow> string" where
  "py_lower s =
     map (\<lambda>c. let n = (of_char c :: nat)
              in if (65 \<le> n \<and> n \<le> 90) \<or> (192 \<le> n \<and> n \<le> 222 \<and> n \<noteq> 215)
                 then char_of (n + 32) else c) s"

text \<open>\<open>request.args.get(name, default)\<close>.\<close>

definition args_get :: "(string \<rightharpoonup> string) \<Rightarrow> string \<Rightarrow> string \<Rightarrow> string" where
  "args_get args name dflt = (case args name of None \<Rightarrow> dflt | Some v \<Rightarrow> v)"

text \<open>
  \<open>get_legacy_client\<close>; \<open>cid\<close> is its argument \<open>client_id\<close>. An exception that
  leaves the handler is answered by the framework with status 500.
\<close>

definition get_legacy_client :: "('n, 'd) pylib \<Rightarrow> store \<Rightarrow> string \<Rightarrow> (string \<rightharpoonup> string) \<Rightarrow> string \<Rightarrow> response" where
  "get_legacy_client lib st url args cid =
     (case read st cid of
        Inl e \<Rightarrow> (Unhandled e, 500)
      | Inr client_record \<Rightarrow>
          if raw_data client_record \<noteq> None \<and> raw_data client_record \<noteq> Some []
          then (let parse_numbers = (py_lower (args_get args ''parse_numbers'' ''true'') \<noteq> ''false'');
                    parse_dates = (py_lower (args_get args ''parse_dates'' ''true'') \<noteq> ''false'');
                    latest = args_get args ''latest'' ''last'';
                    client_data = to_json lib client_record parse_numbers parse_dates latest
                in (Json client_data, 200))
          else not_found url)"

text \<open>
  \<open>int(k)\<close> on a string, base ten: surrounding whitespace is dropped, one sign is
  allowed, then digits, with single underscores between digits. \<open>None\<close> stands for
  ValueError. The whitespace \<open>int\<close> drops is narrower than that of \<open>strip\<close>: the
  separators 28 to 31 are not part of it. A number of more than
  \<open>sys.int_max_str_digits\<close> digits (4300 unless the interpreter is told otherwise) is
  refused as well.
\<close>

definition int_space :: "char \<Rightarrow> bool" where
  "int_space c =
     (let n = (of_char c :: nat)
      in (9 \<le> n \<and> n \<le> 13) \<or> n = 32 \<or> n = 133 \<or> n = 160)"

definition int_max_str_digits :: nat where
  "int_max_str_digits = 4300"

definition isdigit :: "char \<Rightarrow> bool" where
  "isdigit c = (let n = (of_char c :: nat) in 48 \<le> n \<and> n \<le> 57)"

definition digit_value :: "char \<Rightarrow> nat" where
  "digit_value c = of_char c - 48"

fun parse_digits :: "nat \<Rightarrow> string \<Rightarrow> nat option" where
  "parse_digits acc [] = Some acc"
| "parse_digits acc [c] = (if isdigit c then Some (10 * acc + digit_value c) else None)"
| "parse_digits acc (c # d # ds) =
     (if isdigit c then parse_digits (10 * acc + digit_value c) (d # ds)
      else if c = CHR ''_'' \<and> isdigit d then parse_digits (10 * acc + digit_value d) ds
      else None)"

definition parse_unsigned :: "string \<Rightarrow> nat option" where
  "parse_unsigned s =
     (case s of
        [] \<Rightarrow> None
      | c # cs \<Rightarrow> if isdigit c then parse_digits (digit_value c) cs else None)"

definition py_int :: "string \<Rightarrow> int option" where
  "py_int s =
     (case rev (dropWhile int_space (rev (dropWhile int_space s))) of
        [] \<Rightarrow> None
      | c # cs \<Rightarrow>
          if length (filter isdigit (c # cs)) > int_max_str_digits then None
          else if c = CHR ''-'' then map_option (\<lambda>n. - int n) (parse_unsigned cs)
          else if c = CHR ''+'' then map_option int (parse_unsigned cs)
          else map_option int (parse_unsigned (c # cs)))"

text \<open>\<open>attr_map[pos] = v\<close> on a dictionary kept in insertion order.\<close>

definition dict_set :: "('k \<times> 'a) list \<Rightarrow> 'k \<Rightarrow> 'a \<Rightarrow> ('k \<times> 'a) list" where
  "dict_set d k v =
     (if k \<in> fst ` set d then map (\<lambda>(k', v'). if k' = k then (k', v) else (k', v')) d
      else d @ [(k, v)])"

text \<open>
  Lines 387 to 393: the keys of the JSON body turned into positions; the first key
  \<open>int\<close> refuses ends the loop and is returned on the left.
\<close>

fun build_attr_map :: "(string \<times> 'v attr_value) list \<Rightarrow> 'v attribute_map \<Rightarrow> string + 'v attribute_map" where
  "build_attr_map [] attr_map = Inr attr_map"
| "build_attr_map ((k, v) # items) attr_map =
     (case py_int k of
        None \<Rightarrow> Inl k
      | Some pos \<Rightarrow> build_attr_map items (dict_set attr_map pos v))"

text \<open>
  \<open>update_legacy_client\<close>; \<open>cid\<close> is its argument \<open>client_id\<close>, \<open>data\<close> the JSON
  object of the request, empty when the body is missing. The response comes with the store the request leaves behind.
\<close>

definition update_legacy_client :: "('v \<Rightarrow> string) \<Rightarrow> store \<Rightarrow> string \<Rightarrow> (string \<times> 'v attr_value) list \<Rightarrow> string \<Rightarrow> response \<times> store" where
  "update_legacy_client str st url data cid =
     (if data = [] then ((Message ''Missing JSON body with attribute mapping'', 400), st)
      else
        (case read st cid of
           Inl e \<Rightarrow> ((MessageDetail ''Error updating legacy record'' e, 500), st)
         | Inr record \<Rightarrow>
             if raw_data record = None \<or> raw_data record = Some [] then (not_found url, st)
             else
               (case build_attr_map data [] of
                  Inl k \<Rightarrow>
                    ((Message (''Invalid attribute key: '' @ k @ '' (must be integer)''), 400), st)
                | Inr attr_map \<Rightarrow>
                    (case update str st record attr_map of
                       Inl e \<Rightarrow> ((MessageDetail ''Error updating legacy record'' e, 500), st)
                     | Inr (st', record') \<Rightarrow>
                         ((Message ''Legacy record updated successfully'', 200), st')))))"

text \<open>
  A notion for the proofs about \<open>strip\<close>: a string that is empty or does not end in a
  whitespace character, so that \<open>strip\<close> takes nothing from its end.
\<close>

definition ends_clean :: "string \<Rightarrow> bool" where
  "ends_clean s = (s = [] \<or> \<not> isspace (last s))"

section \<open>Auxiliary facts\<close>

lemma py_split_not_Nil [simp]: "py_split c s \<noteq> []"
  by (induction s) (auto simp: Let_def)

lemma getitem_in_range:
  "0 \<le> i \<Longrightarrow> i < int (length xs) \<Longrightarrow> getitem xs i = Inr (xs ! nat i)"
  by (simp add: getitem_def)


lemma extract_pos_attr_out_of_range:
  "a \<le> 0 \<or> int (length (attributes r)) < a \<Longrightarrow> extract_pos r a vp sp = []"
  by (auto simp: extract_pos_def extract_body_def Let_def)





lemma startswith_append: "startswith s p \<longleftrightarrow> (\<exists>t. s = p @ t)"
  unfolding startswith_def
  by (metis append_eq_conv_conj append_take_drop_id)

lemma startswith_key_AM_not_Nil: "startswith s (key @ [AM]) \<Longrightarrow> s \<noteq> []"
  by (auto simp: startswith_append)

lemma split_once_at:
  assumes "c \<notin> set h"
  shows "split_once c (h @ c # t) = [h, t]"
proof -
  have "dropWhile (\<lambda>x. x \<noteq> c) (h @ c # t) = c # t"
    using assms by (induction h) auto
  moreover have "takeWhile (\<lambda>x. x \<noteq> c) (h @ c # t) = h"
    using assms by (induction h) auto
  ultimately show ?thesis by (simp add: split_once_def)
qed

lemma first_occurrence:
  assumes "c \<in> set s"
  shows "\<exists>h t. s = h @ c # t \<and> c \<notin> set h"
  using assms by (metis split_list_first)

lemma second_part_after_AM:
  assumes "startswith s (key @ [AM])"
  shows "\<exists>h raw. s = h @ AM # raw \<and> AM \<notin> set h \<and> getitem (split_once AM s) 1 = Inr raw"
proof -
  from assms have "AM \<in> set s" by (auto simp: startswith_append)
  then obtain h t where s: "s = h @ AM # t" "AM \<notin> set h" using first_occurrence by metis
  then have "split_once AM s = [h, t]" by (simp add: split_once_at)
  then have "getitem (split_once AM s) 1 = Inr t" by (simp add: getitem_def)
  with s show ?thesis by blast
qed

lemma scan_no_match:
  "\<forall>l \<in> set ls. \<not> startswith (py_strip l) (key @ [AM]) \<Longrightarrow> scan key ls = Inr (init (Some key) None)"
  by (induction ls) (simp_all add: Let_def)

lemma scan_skip:
  "\<forall>l \<in> set pre. \<not> startswith (py_strip l) (key @ [AM]) \<Longrightarrow> scan key (pre @ ls) = scan key ls"
  by (induction pre) (simp_all add: Let_def)


lemma scan_first_match:
  assumes "\<forall>p \<in> set pre. \<not> startswith (py_strip p) (key @ [AM])"
    and "startswith (py_strip l) (key @ [AM])"
  shows "\<exists>h raw. py_strip l = h @ AM # raw \<and> AM \<notin> set h
            \<and> scan key (pre @ l # post) = Inr (init (Some key) (Some raw))"
proof -
  from second_part_after_AM [OF assms(2)] obtain h raw where
    hr: "py_strip l = h @ AM # raw" "AM \<notin> set h" "getitem (split_once AM (py_strip l)) 1 = Inr raw"
    by blast
  have "scan key (pre @ l # post) = scan key (l # post)"
    using assms(1) by (rule scan_skip)
  also have "\<dots> = Inr (init (Some key) (Some raw))"
    using assms(2) hr(3) startswith_key_AM_not_Nil [OF assms(2)] by (simp add: Let_def)
  finally show ?thesis using hr by blast
qed

lemma scan_returns: "\<exists>r. scan key ls = Inr r"
proof (induction ls)
  case Nil
  then show ?case by simp
next
  case (Cons l ls)
  show ?case
  proof (cases "startswith (py_strip l) (key @ [AM])")
    case True
    from scan_first_match [of "[]" key l ls] True show ?thesis by auto
  next
    case False
    with Cons show ?thesis by (simp add: Let_def)
  qed
qed

lemma read_returns: "\<exists>r. read st key = Inr r"
  by (cases "data_file st") (simp_all add: read_def scan_returns)


lemma scan_cases:
  assumes r: "scan key ls = Inr r"
  shows "(r = init (Some key) None \<and> (\<forall>l \<in> set ls. \<not> startswith (py_strip l) (key @ [AM])))
   \<or> (\<exists>pre l post h raw. ls = pre @ l # post \<and> (\<forall>p \<in> set pre. \<not> startswith (py_strip p) (key @ [AM]))
          \<and> startswith (py_strip l) (key @ [AM]) \<and> py_strip l = h @ AM # raw \<and> AM \<notin> set h
          \<and> r = init (Some key) (Some raw))"
proof (cases "\<forall>l \<in> set ls. \<not> startswith (py_strip l) (key @ [AM])")
  case True
  with r have "r = init (Some key) None" by (simp add: scan_no_match)
  with True show ?thesis by blast
next
  case False
  then have "\<exists>l \<in> set ls. startswith (py_strip l) (key @ [AM])" by blast
  from split_list_first_prop [OF this] obtain pre l post where d: "ls = pre @ l # post"
    "startswith (py_strip l) (key @ [AM])"
    "\<forall>p \<in> set pre. \<not> startswith (py_strip p) (key @ [AM])"
    by blast
  from scan_first_match [OF d(3) d(2), of post] obtain h raw where
    hr: "py_strip l = h @ AM # raw" "AM \<notin> set h"
        "scan key (pre @ l # post) = Inr (init (Some key) (Some raw))"
    by blast
  from hr(3) r d(1) have "r = init (Some key) (Some raw)" by simp
  with d hr(1,2) show ?thesis by blast
qed

lemma split_at_first_unique:
  assumes "c \<notin> set h" "c \<notin> set h'" "h @ c # t = h' @ c # t'"
  shows "h = h' \<and> t = t'"
  using assms
proof (induction h arbitrary: h')
  case Nil
  then show ?case by (cases h') auto
next
  case (Cons x h)
  then show ?case by (cases h') auto
qed

lemma init_not_found: "init (Some key) None = \<lparr>record_key = Some key, raw_data = None, attributes = []\<rparr>"
  by (simp add: init_def)

lemma read_is_init: "read st key = Inr r \<Longrightarrow> \<exists>rd. r = init (Some key) rd"
proof (cases "data_file st")
  case None
  assume "read st key = Inr r"
  with None show ?thesis by (auto simp: read_def)
next
  case (Some content)
  assume "read st key = Inr r"
  with Some have "scan key (readlines content) = Inr r" by (simp add: read_def)
  from scan_cases [OF this] show ?thesis by blast
qed

lemma init_attributes:
  "raw_data (init k rd) = Some raw \<Longrightarrow> raw \<noteq> [] \<Longrightarrow> attributes (init k rd) = py_split AM raw"
  by (simp add: init_def)

lemma to_json_empty_raw: "raw_data r = Some [] \<Longrightarrow> to_json lib r pn pd latest = None"
  by (simp add: to_json_def)

lemma get_legacy_client_empty_raw:
  "read st cid = Inr r \<Longrightarrow> raw_data r = Some [] \<Longrightarrow> get_legacy_client lib st url args cid = not_found url"
  by (simp add: get_legacy_client_def)

lemma read_key_only_line:
  assumes "data_file st = Some content" "readlines content = pre @ l # post"
    and "\<forall>p \<in> set pre. \<not> startswith (py_strip p) (key @ [AM])"
    and "py_strip l = key @ [AM]" "AM \<notin> set key"
  shows "read st key = Inr (init (Some key) (Some []))"
proof -
  have m: "startswith (py_strip l) (key @ [AM])" using assms(4) by (simp add: startswith_def)
  from scan_first_match [OF assms(3) m, of post] obtain h raw where
    hr: "py_strip l = h @ AM # raw" "AM \<notin> set h"
        "scan key (pre @ l # post) = Inr (init (Some key) (Some raw))"
    by blast
  from hr(1) assms(4) have "h @ AM # raw = key @ AM # []" by simp
  from split_at_first_unique [OF hr(2) assms(5) this] have "raw = []" by simp
  with hr(3) assms(1,2) show ?thesis by (simp add: read_def)
qed

lemma multivalues_filter:
  "multivalues r pos = filter (\<lambda>b. b \<noteq> []) (py_split VM (extract_pos r pos None None))"
  by (simp add: multivalues_def Let_def)

lemma length_parse_each: "length (parse_each conv flag xs) = length xs"
  by (simp add: parse_each_def)

lemma parse_each_unparsed: "map (py_str str_a) (parse_each conv False xs) = xs"
  by (induction xs) (simp_all add: parse_each_def py_str_def)

lemma py_str_parse_each:
  "map (py_str str_a) (parse_each conv flag xs)
     = map (\<lambda>b. if flag then (case conv b of None \<Rightarrow> b | Some v \<Rightarrow> str_a v) else b) xs"
  by (induction xs) (simp_all add: parse_each_def py_str_def split: option.splits)

lemma to_json_transactions_shape:
  assumes "to_json lib r pn pd latest = Some j"
  shows "length (transactions j) = max (length (multivalues r 2)) (length (multivalues r 3))"
    and "\<forall>t \<in> set (transactions j). map fst t = [''amount'', ''date'']"
  using assms
  by (auto simp: to_json_def Let_def pair_up_def parsed_balances_def parsed_dates_def
      length_parse_each split: if_splits)

lemma build_attr_map_refused:
  "build_attr_map data m = Inl k \<Longrightarrow> k \<in> fst ` set data \<and> py_int k = None"
  by (induction data m rule: build_attr_map.induct) (auto split: option.splits)

lemma update_legacy_client_refuses_non_integer_key:
  assumes "data \<noteq> []" "read st cid = Inr r" "raw_data r \<noteq> None" "raw_data r \<noteq> Some []"
    and "build_attr_map data [] = Inl k"
  shows "update_legacy_client str st url data cid
           = ((Message (''Invalid attribute key: '' @ k @ '' (must be integer)''), 400), st)"
proof -
  from assms(3,4) have "\<not> (raw_data r = None \<or> raw_data r = Some [])" by simp
  with assms(1,2,5) show ?thesis by (simp add: update_legacy_client_def del: not_None_eq)
qed

lemma split_lines_eq_Nil [simp]: "split_lines s = [] \<longleftrightarrow> s = []"
  by (cases s) (auto split: list.splits)

lemma concat_split_lines: "concat (split_lines s) = s"
  by (induction s) (auto split: list.splits)

lemma concat_readlines: "concat (readlines s) = universal_newlines s"
  by (simp add: readlines_def concat_split_lines)

lemma universal_newlines_id: "carriage_return \<notin> set s \<Longrightarrow> universal_newlines s = s"
  by (induction s rule: universal_newlines.induct) auto

lemma universal_newlines_no_cr: "carriage_return \<notin> set (universal_newlines s)"
  by (induction s rule: universal_newlines.induct) (auto simp: carriage_return_def newline_def)

lemma readlines_no_cr: "l \<in> set (readlines s) \<Longrightarrow> carriage_return \<notin> set l"
proof -
  assume "l \<in> set (readlines s)"
  then have "set l \<subseteq> set (concat (readlines s))" by auto
  then show ?thesis using universal_newlines_no_cr [of s] by (auto simp: concat_readlines)
qed

lemma write_lines_concat:
  "write_lines key u ls out
     = out @ concat (map (\<lambda>l. if startswith (py_strip l) (key @ [AM]) then u else l) ls)"
  by (induction ls arbitrary: out) simp_all

lemma write_lines_no_match:
  "\<forall>l \<in> set ls. \<not> startswith (py_strip l) (key @ [AM]) \<Longrightarrow> write_lines key u ls [] = concat ls"
  by (simp add: write_lines_concat cong: map_cong)

lemma update_Inr:
  assumes "update str st r m = Inr (st', r')"
  shows "\<exists>key attrs content.
           record_key r = Some key \<and> key \<noteq> []
         \<and> assign_attrs str m (pad_attrs (attributes r) (max_index m)) = Inr attrs
         \<and> data_file st = Some content
         \<and> st' = st\<lparr>bak_file := Some content,
                     data_file := Some (write_lines key (key @ [AM] @ py_join [AM] attrs @ [newline])
                                          (readlines content) [])\<rparr>
         \<and> r' = r\<lparr>raw_data := Some (py_join [AM] attrs),
                    attributes := py_split AM (py_join [AM] attrs)\<rparr>"
  using assms
  by (auto simp: update_def Let_def split: option.splits sum.splits if_splits)

lemma update_succeeds:
  assumes "record_key r = Some key" "key \<noteq> []"
    and "assign_attrs str m (pad_attrs (attributes r) (max_index m)) = Inr attrs"
    and "data_file st = Some content"
  shows "update str st r m
           = Inr (st\<lparr>bak_file := Some content,
                     data_file := Some (write_lines key (key @ [AM] @ py_join [AM] attrs @ [newline])
                                          (readlines content) [])\<rparr>,
                  r\<lparr>raw_data := Some (py_join [AM] attrs),
                    attributes := py_split AM (py_join [AM] attrs)\<rparr>)"
  using assms by (simp add: update_def Let_def)

lemma fold_max_ge: "(a::int) \<le> fold max ks a"
  by (induction ks arbitrary: a) (auto intro: order_trans [OF max.cobounded2])

lemma fold_max_mem: "(k::int) \<in> set ks \<Longrightarrow> k \<le> fold max ks a"
  by (induction ks arbitrary: a) (auto intro: order_trans [OF max.cobounded1 fold_max_ge])

lemma max_index_ge: "k \<in> fst ` set m \<Longrightarrow> k \<le> max_index m"
proof -
  assume "k \<in> fst ` set m"
  then have k: "k \<in> set (map fst m)" by simp
  show ?thesis
  proof (cases "map fst m")
    case Nil
    with k show ?thesis by simp
  next
    case (Cons a ks)
    with k have "k = a \<or> k \<in> set ks" by auto
    then have "k \<le> fold max ks a" using fold_max_ge fold_max_mem by blast
    with Cons show ?thesis by (simp add: max_index_def)
  qed
qed

lemma length_pad_attrs: "mx \<le> int (length (pad_attrs attrs mx))"
  by (simp add: pad_attrs_def)

lemma assign_attrs_succeeds:
  "\<forall>k \<in> fst ` set m. 1 \<le> k \<and> k \<le> int (length attrs) \<Longrightarrow>
     \<exists>attrs'. assign_attrs str m attrs = Inr attrs' \<and> length attrs' = length attrs"
proof (induction m arbitrary: attrs)
  case Nil
  then show ?case by simp
next
  case (Cons kv m)
  obtain k v where kv: "kv = (k, v)" by (cases kv)
  with Cons.prems have k: "1 \<le> k" "k \<le> int (length attrs)" by auto
  then have s: "setitem attrs (k - 1) (render str v) = Inr (attrs[nat (k - 1) := render str v])"
    by (simp add: setitem_def)
  have "\<forall>k' \<in> fst ` set m. 1 \<le> k' \<and> k' \<le> int (length (attrs[nat (k - 1) := render str v]))"
    using Cons.prems by simp
  from Cons.IH [OF this] s kv show ?case by simp
qed

lemma assign_attrs_padded_succeeds:
  assumes "\<forall>k \<in> fst ` set m. 1 \<le> k"
  shows "\<exists>attrs'. assign_attrs str m (pad_attrs attrs (max_index m)) = Inr attrs'
            \<and> length attrs' = length (pad_attrs attrs (max_index m))"
proof (rule assign_attrs_succeeds, rule ballI)
  fix k assume k: "k \<in> fst ` set m"
  then have "k \<le> max_index m" by (rule max_index_ge)
  also have "\<dots> \<le> int (length (pad_attrs attrs (max_index m)))" by (rule length_pad_attrs)
  finally show "1 \<le> k \<and> k \<le> int (length (pad_attrs attrs (max_index m)))"
    using assms k by auto
qed

lemma py_split_no_sep: "c \<notin> set s \<Longrightarrow> py_split c s = [s]"
  by (induction s) (auto simp: Let_def)

lemma py_split_append: "c \<notin> set a \<Longrightarrow> py_split c (a @ c # rest) = a # py_split c rest"
  by (induction a) (auto simp: Let_def)

lemma py_split_join:
  "xs \<noteq> [] \<Longrightarrow> \<forall>x \<in> set xs. c \<notin> set x \<Longrightarrow> py_split c (py_join [c] xs) = xs"
proof (induction "[c]" xs rule: py_join.induct)
  case 1
  then show ?case by simp
next
  case (2 x)
  then show ?case by (simp add: py_split_no_sep)
next
  case (3 x y ys)
  then show ?case by (simp add: py_split_append)
qed

lemma py_split_elem_no_sep: "x \<in> set (py_split c s) \<Longrightarrow> c \<notin> set x"
proof (induction s arbitrary: x)
  case Nil
  then show ?case by simp
next
  case (Cons a s)
  have ne: "py_split c s \<noteq> []" by simp
  then obtain h t where ht: "py_split c s = h # t" by (cases "py_split c s") auto
  with Cons show ?case by (auto simp: Let_def split: if_splits)
qed

lemma py_split_elem_subset: "x \<in> set (py_split c s) \<Longrightarrow> set x \<subseteq> set s"
proof (induction s arbitrary: x)
  case Nil
  then show ?case by simp
next
  case (Cons a s)
  obtain h t where ht: "py_split c s = h # t" by (cases "py_split c s") auto
  with Cons show ?case by (fastforce simp: Let_def split: if_splits)
qed

lemma py_join_split: "py_join [c] (py_split c s) = s"
proof (induction s)
  case Nil
  then show ?case by simp
next
  case (Cons a s)
  obtain h t where ht: "py_split c s = h # t" by (cases "py_split c s") auto
  show ?case
  proof (cases "a = c")
    case True
    with Cons ht show ?thesis by simp
  next
    case False
    with Cons ht show ?thesis by (cases t) (auto simp: Let_def)
  qed
qed

lemma py_join_Nil: "py_join sep xs = [] \<Longrightarrow> sep \<noteq> [] \<Longrightarrow> \<forall>x \<in> set xs. x = []"
  by (induction sep xs rule: py_join.induct) auto

lemma set_py_join: "set (py_join sep xs) \<subseteq> set sep \<union> (\<Union>x \<in> set xs. set x)"
  by (induction sep xs rule: py_join.induct) auto

lemma ends_clean_py_join:
  "xs \<noteq> [] \<Longrightarrow> \<not> isspace c \<Longrightarrow> ends_clean (py_join [c] xs) \<longleftrightarrow> ends_clean (last xs)"
proof (induction "[c]" xs rule: py_join.induct)
  case 1
  then show ?case by simp
next
  case (2 x)
  then show ?case by simp
next
  case (3 x y ys)
  show ?case
  proof (cases "py_join [c] (y # ys) = []")
    case True
    then have "\<forall>z \<in> set (y # ys). z = []" by (rule py_join_Nil) simp
    then have "last (y # ys) = []" using last_in_set [of "y # ys"] by blast
    with True 3 show ?thesis by (simp add: ends_clean_def)
  next
    case False
    with 3 show ?thesis by (simp add: ends_clean_def)
  qed
qed

lemma isspace_newline: "isspace newline"
  by (simp add: isspace_def newline_def)

lemma not_isspace_AM: "\<not> isspace AM"
  by (simp add: isspace_def AM_def)

lemma AM_not_newline: "AM \<noteq> newline"
  by (simp add: AM_def newline_def)

lemma dropWhile_all: "\<forall>y \<in> set b. P y \<Longrightarrow> dropWhile P b = []"
  by (induction b) auto

lemma py_strip_snoc_space: "isspace x \<Longrightarrow> py_strip (b @ [x]) = py_strip b"
proof (cases "\<forall>y \<in> set b. isspace y")
  case True
  assume "isspace x"
  with True have "\<forall>y \<in> set (b @ [x]). isspace y" by simp
  then have 1: "dropWhile isspace (b @ [x]) = []" by (rule dropWhile_all)
  from True have 2: "dropWhile isspace b = []" by (rule dropWhile_all)
  show ?thesis unfolding py_strip_def 1 2 by simp
next
  case False
  assume x: "isspace x"
  from False have "dropWhile isspace (b @ [x]) = dropWhile isspace b @ [x]"
    by (auto simp: dropWhile_append1)
  with x show ?thesis by (simp add: py_strip_def)
qed

lemma set_py_strip: "set (py_strip s) \<subseteq> set s"
  unfolding py_strip_def by (auto dest!: set_dropWhileD)

lemma py_strip_clean:
  assumes "s \<noteq> []" "\<not> isspace (hd s)" "\<not> isspace (last s)"
  shows "py_strip s = s"
proof -
  from assms have "dropWhile isspace s = s" by (cases s) auto
  moreover from assms have "dropWhile isspace (rev s) = rev s"
    by (cases "rev s") (auto simp: last_rev [symmetric] hd_rev)
  ultimately show ?thesis by (simp add: py_strip_def)
qed

lemma py_strip_ends:
  assumes "py_strip s \<noteq> []"
  shows "\<not> isspace (hd (py_strip s))" and "\<not> isspace (last (py_strip s))"
proof -
  define a where "a = dropWhile isspace s"
  define b where "b = dropWhile isspace (rev a)"
  have st: "py_strip s = rev b" by (simp add: py_strip_def a_def b_def)
  with assms have bne: "b \<noteq> []" by simp
  then have "\<not> isspace (hd b)" unfolding b_def by (rule hd_dropWhile)
  with bne st show "\<not> isspace (last (py_strip s))" by (simp add: last_rev)
  from bne have ane: "a \<noteq> []" by (auto simp: b_def)
  then have ha: "\<not> isspace (hd a)" unfolding a_def by (rule hd_dropWhile)
  have "rev a = takeWhile isspace (rev a) @ b" by (simp add: b_def)
  then have "last (rev a) = last b" using bne by (metis last_appendR)
  with ane have "last b = hd a" by (simp add: last_rev)
  with ha bne st show "\<not> isspace (hd (py_strip s))" by (simp add: hd_rev)
qed

lemma split_lines_single: "l \<noteq> [] \<Longrightarrow> newline \<notin> set (butlast l) \<Longrightarrow> split_lines l = [l]"
proof (induction l)
  case Nil
  then show ?case by simp
next
  case (Cons c cs)
  show ?case
  proof (cases "cs = []")
    case True
    then show ?thesis by simp
  next
    case False
    with Cons.prems have "c \<noteq> newline" "newline \<notin> set (butlast cs)" by auto
    with Cons.IH False show ?thesis by simp
  qed
qed

lemma split_lines_terminated:
  "newline \<notin> set b \<Longrightarrow> split_lines (b @ newline # rest) = (b @ [newline]) # split_lines rest"
  by (induction b) auto

lemma split_lines_lines_wf:
  "\<forall>l \<in> set (split_lines s). l \<noteq> [] \<and> newline \<notin> set (butlast l)"
proof (induction s)
  case Nil
  then show ?case by simp
next
  case (Cons c cs)
  show ?case
  proof (cases "c = newline")
    case True
    with Cons show ?thesis by simp
  next
    case False
    show ?thesis
    proof (cases "split_lines cs")
      case Nil
      with False show ?thesis by simp
    next
      case (Cons l ls)
      with Cons.IH have "l \<noteq> []" "newline \<notin> set (butlast l)"
        "\<forall>l \<in> set ls. l \<noteq> [] \<and> newline \<notin> set (butlast l)"
        by auto
      with False Cons show ?thesis by simp
    qed
  qed
qed

lemma split_lines_butlast_terminated:
  "\<forall>l \<in> set (butlast (split_lines s)). last l = newline"
proof (induction s)
  case Nil
  then show ?case by simp
next
  case (Cons c cs)
  show ?case
  proof (cases "c = newline")
    case True
    with Cons show ?thesis by simp
  next
    case False
    show ?thesis
    proof (cases "split_lines cs")
      case Nil
      with False show ?thesis by simp
    next
      case rl: (Cons l ls)
      have lne: "l \<noteq> []" using split_lines_lines_wf [of cs] rl by simp
      show ?thesis
      proof (cases "ls = []")
        case True
        with False rl show ?thesis by simp
      next
        case ne: False
        with Cons.IH rl have "last l = newline" "\<forall>x \<in> set (butlast ls). last x = newline"
          by auto
        with False rl ne lne show ?thesis by simp
      qed
    qed
  qed
qed

lemma split_lines_concat:
  assumes "\<forall>l \<in> set ls. l \<noteq> [] \<and> newline \<notin> set (butlast l)"
    and "\<forall>l \<in> set (butlast ls). last l = newline"
  shows "split_lines (concat ls) = ls"
  using assms
proof (induction ls)
  case Nil
  then show ?case by simp
next
  case (Cons l ls)
  show ?case
  proof (cases "ls = []")
    case True
    with Cons.prems show ?thesis by (simp add: split_lines_single)
  next
    case False
    with Cons.prems have l: "l \<noteq> []" "newline \<notin> set (butlast l)" "last l = newline" by auto
    then have e: "l = butlast l @ [newline]" by (metis append_butlast_last_id)
    have "split_lines ((butlast l @ [newline]) @ concat ls) = (butlast l @ [newline]) # split_lines (concat ls)"
      using split_lines_terminated [OF l(2), of "concat ls"] by simp
    then have "split_lines (l @ concat ls) = l # split_lines (concat ls)"
      using e by simp
    moreover have "split_lines (concat ls) = ls"
      using Cons.prems False by (intro Cons.IH) auto
    ultimately show ?thesis by simp
  qed
qed

lemma readlines_lines_wf:
  "\<forall>l \<in> set (readlines s). l \<noteq> [] \<and> newline \<notin> set (butlast l)"
  unfolding readlines_def by (rule split_lines_lines_wf)

lemma readlines_rewritten:
  assumes "newline \<notin> set ub" "carriage_return \<notin> set ub"
  shows "readlines (concat (map (\<lambda>l. if P l then ub @ [newline] else l) (readlines s)))
           = map (\<lambda>l. if P l then ub @ [newline] else l) (readlines s)"
proof -
  define t where "t = universal_newlines s"
  define f where "f = (\<lambda>l. if P l then ub @ [newline] else l)"
  have rs: "readlines s = split_lines t" by (simp add: readlines_def t_def)
  have "\<forall>l \<in> set (map f (split_lines t)). carriage_return \<notin> set l"
    using readlines_no_cr [of _ s] assms(2) by (auto simp: rs f_def carriage_return_def newline_def)
  then have "carriage_return \<notin> set (concat (map f (split_lines t)))" by auto
  then have "readlines (concat (map f (split_lines t))) = split_lines (concat (map f (split_lines t)))"
    by (simp add: readlines_def universal_newlines_id)
  also have "\<dots> = map f (split_lines t)"
  proof (rule split_lines_concat)
    show "\<forall>l \<in> set (map f (split_lines t)). l \<noteq> [] \<and> newline \<notin> set (butlast l)"
      using split_lines_lines_wf [of t] assms(1) by (auto simp: f_def)
    have "butlast (map f (split_lines t)) = map f (butlast (split_lines t))"
      by (simp add: map_butlast)
    then show "\<forall>l \<in> set (butlast (map f (split_lines t))). last l = newline"
      using split_lines_butlast_terminated [of t] by (auto simp: f_def)
  qed
  finally show ?thesis by (simp add: rs f_def)
qed

lemma py_strip_line_no_newline:
  assumes "l \<in> set (readlines s)"
  shows "newline \<notin> set (py_strip l)"
proof -
  from assms readlines_lines_wf [of s] have l: "l \<noteq> []" "newline \<notin> set (butlast l)" by auto
  show ?thesis
  proof (cases "last l = newline")
    case True
    with l have "l = butlast l @ [newline]" by (metis append_butlast_last_id)
    then have "py_strip l = py_strip (butlast l)"
      using py_strip_snoc_space [OF isspace_newline, of "butlast l"] by simp
    with set_py_strip [of "butlast l"] l(2) show ?thesis by auto
  next
    case False
    with l have "newline \<notin> set l" by (metis append_butlast_last_id rotate1.simps(2) set_ConsD set_rotate1)
    with set_py_strip [of l] show ?thesis by auto
  qed
qed

lemma fold_max_in: "fold max ks (a::int) \<in> insert a (set ks)"
  by (induction ks arbitrary: a) (auto simp: max_def)

lemma max_index_mem: "m \<noteq> [] \<Longrightarrow> max_index m \<in> fst ` set m"
proof -
  assume "m \<noteq> []"
  then obtain a ks where c: "map fst m = a # ks" by (cases m) auto
  then have "max_index m = fold max ks a" by (simp add: max_index_def)
  with fold_max_in [of ks a] have "max_index m \<in> set (map fst m)" using c by simp
  then show ?thesis by simp
qed

lemma assign_attrs_nth:
  assumes "distinct (map fst m)"
    and "\<forall>k \<in> fst ` set m. 1 \<le> k \<and> k \<le> int (length attrs)"
    and "assign_attrs str m attrs = Inr attrs'"
  shows "length attrs' = length attrs
       \<and> (\<forall>(k, v) \<in> set m. attrs' ! nat (k - 1) = render str v)
       \<and> (\<forall>i < length attrs. int i + 1 \<notin> fst ` set m \<longrightarrow> attrs' ! i = attrs ! i)"
  using assms
proof (induction m arbitrary: attrs)
  case Nil
  then show ?case by simp
next
  case (Cons kv m)
  obtain k v where kv: "kv = (k, v)" by (cases kv)
  with Cons.prems have k: "1 \<le> k" "k \<le> int (length attrs)" "k \<notin> fst ` set m" by auto
  define attrs1 where "attrs1 = attrs[nat (k - 1) := render str v]"
  from k have s: "setitem attrs (k - 1) (render str v) = Inr attrs1"
    by (simp add: setitem_def attrs1_def)
  with Cons.prems(3) kv have a: "assign_attrs str m attrs1 = Inr attrs'" by simp
  have len1: "length attrs1 = length attrs" by (simp add: attrs1_def)
  have d: "distinct (map fst m)" using Cons.prems(1) by simp
  have r: "\<forall>k' \<in> fst ` set m. 1 \<le> k' \<and> k' \<le> int (length attrs1)"
    using Cons.prems(2) len1 by simp
  from Cons.IH [OF d r a] have
    ih1: "length attrs' = length attrs1"
    and ih2: "\<forall>(k, v) \<in> set m. attrs' ! nat (k - 1) = render str v"
    and ih3: "\<forall>i < length attrs1. int i + 1 \<notin> fst ` set m \<longrightarrow> attrs' ! i = attrs1 ! i"
    by blast+
  have kidx: "nat (k - 1) < length attrs1" "int (nat (k - 1)) + 1 = k" using k len1 by auto
  with ih3 k(3) have "attrs' ! nat (k - 1) = attrs1 ! nat (k - 1)" by simp
  also have "\<dots> = render str v" using kidx len1 by (simp add: attrs1_def)
  finally have hd: "attrs' ! nat (k - 1) = render str v" .
  have third: "\<forall>i < length attrs. int i + 1 \<notin> fst ` set (kv # m) \<longrightarrow> attrs' ! i = attrs ! i"
  proof (intro allI impI)
    fix i assume i: "i < length attrs" "int i + 1 \<notin> fst ` set (kv # m)"
    then have "int i + 1 \<noteq> k" "int i + 1 \<notin> fst ` set m" using kv by auto
    then have "i \<noteq> nat (k - 1)" using k(1) by auto
    with ih3 i len1 \<open>int i + 1 \<notin> fst ` set m\<close> show "attrs' ! i = attrs ! i"
      by (simp add: attrs1_def)
  qed
  from ih1 len1 ih2 hd third kv show ?case by auto
qed

lemma extract_pos_attr:
  "1 \<le> a \<Longrightarrow> a \<le> int (length (attributes r)) \<Longrightarrow>
     extract_pos r a None None = attributes r ! nat (a - 1)"
  by (simp add: extract_pos_def extract_body_def Let_def getitem_in_range)

lemma read_found:
  assumes "read st key = Inr r" "raw_data r = Some raw" "AM \<notin> set key"
  shows "\<exists>content pre l post.
           data_file st = Some content \<and> readlines content = pre @ l # post
         \<and> (\<forall>p \<in> set pre. \<not> startswith (py_strip p) (key @ [AM]))
         \<and> py_strip l = key @ AM # raw
         \<and> r = init (Some key) (Some raw)"
proof (cases "data_file st")
  case None
  with assms(1,2) show ?thesis by (auto simp: read_def init_def)
next
  case (Some content)
  with assms(1) have sc: "scan key (readlines content) = Inr r" by (simp add: read_def)
  from scan_cases [OF sc] assms(2) obtain pre l post h raw' where
    d: "readlines content = pre @ l # post"
       "\<forall>p \<in> set pre. \<not> startswith (py_strip p) (key @ [AM])"
       "startswith (py_strip l) (key @ [AM])" "py_strip l = h @ AM # raw'" "AM \<notin> set h"
       "r = init (Some key) (Some raw')"
    by (auto simp: init_def)
  from d(6) assms(2) have rr: "raw' = raw" by (simp add: init_def)
  from d(3) obtain t where "py_strip l = key @ AM # t" by (auto simp: startswith_append)
  with d(4) have "h @ AM # raw' = key @ AM # t" by simp
  from split_at_first_unique [OF d(5) assms(3) this] have "h = key" by simp
  with d rr Some show ?thesis by blast
qed

lemma found_record_shape:
  assumes "read st key = Inr r" "raw_data r = Some raw" "AM \<notin> set key" "key \<noteq> []"
  shows "\<not> isspace (hd key)"
    and "newline \<notin> set key \<and> carriage_return \<notin> set key"
    and "\<forall>x \<in> set (attributes r). AM \<notin> set x \<and> newline \<notin> set x \<and> carriage_return \<notin> set x"
    and "attributes r \<noteq> [] \<longrightarrow> ends_clean (last (attributes r))"
proof -
  from read_found [OF assms(1,2,3)] obtain content pre l post where
    rl: "readlines content = pre @ l # post"
    and sl: "py_strip l = key @ AM # raw"
    and r: "r = init (Some key) (Some raw)"
    by blast
  from rl have lin: "l \<in> set (readlines content)" by simp
  then have nn: "newline \<notin> set (py_strip l)" by (rule py_strip_line_no_newline)
  from readlines_no_cr [OF lin] set_py_strip [of l]
  have nc: "carriage_return \<notin> set (py_strip l)" by auto
  from nn nc sl show "newline \<notin> set key \<and> carriage_return \<notin> set key" by simp
  from nn nc sl have nraw: "newline \<notin> set raw" "carriage_return \<notin> set raw" by simp_all
  from sl have ne: "py_strip l \<noteq> []" by simp
  from py_strip_ends(1) [OF ne] sl assms(4) show "\<not> isspace (hd key)" by simp
  from py_strip_ends(2) [OF ne] sl have craw: "ends_clean raw"
    by (cases "raw = []") (simp_all add: ends_clean_def)
  from r have at: "attributes r = (if raw \<noteq> [] then py_split AM raw else [])"
    by (simp add: init_def)
  show "\<forall>x \<in> set (attributes r). AM \<notin> set x \<and> newline \<notin> set x \<and> carriage_return \<notin> set x"
  proof
    fix x assume "x \<in> set (attributes r)"
    with at have x: "x \<in> set (py_split AM raw)" by (simp split: if_splits)
    from py_split_elem_no_sep [OF x] py_split_elem_subset [OF x] nraw
    show "AM \<notin> set x \<and> newline \<notin> set x \<and> carriage_return \<notin> set x" by auto
  qed
  show "attributes r \<noteq> [] \<longrightarrow> ends_clean (last (attributes r))"
  proof
    assume "attributes r \<noteq> []"
    with at have a: "attributes r = py_split AM raw" by (simp split: if_splits)
    have "ends_clean (py_join [AM] (py_split AM raw))" using craw by (simp add: py_join_split)
    then have "ends_clean (last (py_split AM raw))"
      using ends_clean_py_join [of "py_split AM raw" AM] not_isspace_AM by simp
    with a show "ends_clean (last (attributes r))" by simp
  qed
qed

lemma AM_not_carriage_return: "AM \<noteq> carriage_return"
  by (simp add: AM_def carriage_return_def)

lemma reread_updated_line:
  assumes rl: "readlines content = pre @ l # post"
    and np: "\<forall>p \<in> set pre. \<not> startswith (py_strip p) (key @ [AM])"
    and ml: "startswith (py_strip l) (key @ [AM])"
    and key: "key \<noteq> []" "\<not> isspace (hd key)" "newline \<notin> set key \<and> carriage_return \<notin> set key"
      "AM \<notin> set key"
    and nr: "newline \<notin> set new_raw" "carriage_return \<notin> set new_raw" "ends_clean new_raw"
  shows "scan key (readlines (write_lines key (key @ [AM] @ new_raw @ [newline]) (readlines content) []))
           = Inr (init (Some key) (Some new_raw))"
proof -
  define ub where "ub = key @ AM # new_raw"
  define u where "u = key @ [AM] @ new_raw @ [newline]"
  define f where "f = (\<lambda>l. if startswith (py_strip l) (key @ [AM]) then ub @ [newline] else l)"
  have u: "u = ub @ [newline]" by (simp add: u_def ub_def)
  have nub: "newline \<notin> set ub" using key(3) nr(1) AM_not_newline by (auto simp: ub_def)
  have cub: "carriage_return \<notin> set ub"
    using key(3) nr(2) AM_not_carriage_return by (auto simp: ub_def)
  have "ub \<noteq> []" by (simp add: ub_def)
  moreover have "hd ub = hd key" using key(1) by (simp add: ub_def)
  moreover have "\<not> isspace (last ub)"
    using nr(3) not_isspace_AM by (cases "new_raw = []") (simp_all add: ub_def ends_clean_def)
  ultimately have "py_strip ub = ub" using key(2) by (simp add: py_strip_clean)
  then have su: "py_strip (ub @ [newline]) = ub"
    using py_strip_snoc_space [OF isspace_newline, of ub] by simp
  then have mu: "startswith (py_strip (ub @ [newline])) (key @ [AM])"
    by (simp add: startswith_append ub_def)
  have w: "write_lines key u (readlines content) [] = concat (map f (readlines content))"
    by (simp add: write_lines_concat f_def u)
  have "readlines (concat (map f (readlines content))) = map f (readlines content)"
    unfolding f_def using nub cub by (rule readlines_rewritten)
  also have "\<dots> = map f pre @ f l # map f post" by (simp add: rl)
  also have "map f pre = pre" using np by (simp add: f_def map_idI)
  also have "f l = ub @ [newline]" using ml by (simp add: f_def)
  finally have rw: "readlines (concat (map f (readlines content))) = pre @ (ub @ [newline]) # map f post" .
  from scan_first_match [OF np mu, of "map f post"] obtain h raw2 where
    hr: "py_strip (ub @ [newline]) = h @ AM # raw2" "AM \<notin> set h"
        "scan key (pre @ (ub @ [newline]) # map f post) = Inr (init (Some key) (Some raw2))"
    by blast
  from hr(1) su have "h @ AM # raw2 = key @ AM # new_raw" by (simp add: ub_def)
  from split_at_first_unique [OF hr(2) key(4) this] have "raw2 = new_raw" by simp
  with hr(3) rw w show ?thesis by (simp add: u_def)
qed

lemma updated_attrs_clean:
  assumes d: "distinct (map fst m)"
    and vals: "\<forall>(k, v) \<in> set m. 1 \<le> k \<and> AM \<notin> set (render str v) \<and> newline \<notin> set (render str v)
                 \<and> carriage_return \<notin> set (render str v)"
    and lastval: "\<forall>(k, v) \<in> set m. int (length attrs) \<le> k \<and> k = max_index m
                 \<longrightarrow> ends_clean (render str v)"
    and old: "\<forall>x \<in> set attrs. AM \<notin> set x \<and> newline \<notin> set x \<and> carriage_return \<notin> set x"
    and oldlast: "attrs \<noteq> [] \<longrightarrow> ends_clean (last attrs)"
    and as: "assign_attrs str m (pad_attrs attrs (max_index m)) = Inr attrs'"
  shows "\<forall>x \<in> set attrs'. AM \<notin> set x \<and> newline \<notin> set x \<and> carriage_return \<notin> set x"
    and "attrs' \<noteq> [] \<longrightarrow> ends_clean (last attrs')"
    and "\<forall>(k, v) \<in> set m. nat (k - 1) < length attrs' \<and> attrs' ! nat (k - 1) = render str v"
proof -
  define attrs0 where "attrs0 = pad_attrs attrs (max_index m)"
  have pos: "\<forall>k \<in> fst ` set m. 1 \<le> k" using vals by auto
  have rng: "\<forall>k \<in> fst ` set m. 1 \<le> k \<and> k \<le> int (length attrs0)"
  proof
    fix k assume k: "k \<in> fst ` set m"
    then have "k \<le> max_index m" by (rule max_index_ge)
    also have "\<dots> \<le> int (length attrs0)" unfolding attrs0_def by (rule length_pad_attrs)
    finally show "1 \<le> k \<and> k \<le> int (length attrs0)" using pos k by auto
  qed
  from assign_attrs_nth [OF d rng as [folded attrs0_def]] have
    len: "length attrs' = length attrs0"
    and upd: "\<forall>(k, v) \<in> set m. attrs' ! nat (k - 1) = render str v"
    and keep: "\<forall>i < length attrs0. int i + 1 \<notin> fst ` set m \<longrightarrow> attrs' ! i = attrs0 ! i"
    by blast+
  have len0: "length attrs \<le> length attrs0" by (simp add: attrs0_def pad_attrs_def)
  show third: "\<forall>(k, v) \<in> set m. nat (k - 1) < length attrs' \<and> attrs' ! nat (k - 1) = render str v"
  proof (clarify, rule conjI)
    fix k v assume kv: "(k, v) \<in> set m"
    then have "k \<in> fst ` set m" by force
    with rng len show "nat (k - 1) < length attrs'" by auto
    from upd kv show "attrs' ! nat (k - 1) = render str v" by auto
  qed
  have old0: "\<forall>x \<in> set attrs0. AM \<notin> set x \<and> newline \<notin> set x \<and> carriage_return \<notin> set x"
    using old by (auto simp: attrs0_def pad_attrs_def)
  have elem: "AM \<notin> set (attrs' ! i) \<and> newline \<notin> set (attrs' ! i) \<and> carriage_return \<notin> set (attrs' ! i)
              \<and> (int i + 1 \<notin> fst ` set m \<longrightarrow> attrs' ! i = attrs0 ! i)
              \<and> (int i + 1 \<in> fst ` set m \<longrightarrow> (\<exists>v. (int i + 1, v) \<in> set m \<and> attrs' ! i = render str v))"
    if i: "i < length attrs'" for i
  proof (cases "int i + 1 \<in> fst ` set m")
    case True
    then obtain v where kv: "(int i + 1, v) \<in> set m" by force
    with upd have "attrs' ! nat (int i + 1 - 1) = render str v" by auto
    then have "attrs' ! i = render str v" by simp
    with vals kv True show ?thesis by auto
  next
    case False
    with keep i len have e: "attrs' ! i = attrs0 ! i" by simp
    from i len have "attrs0 ! i \<in> set attrs0" by simp
    with old0 e False show ?thesis by auto
  qed
  show "\<forall>x \<in> set attrs'. AM \<notin> set x \<and> newline \<notin> set x \<and> carriage_return \<notin> set x"
  proof
    fix x assume "x \<in> set attrs'"
    then obtain i where "i < length attrs'" "x = attrs' ! i" by (auto simp: in_set_conv_nth)
    with elem show "AM \<notin> set x \<and> newline \<notin> set x \<and> carriage_return \<notin> set x" by blast
  qed
  show "attrs' \<noteq> [] \<longrightarrow> ends_clean (last attrs')"
  proof
    assume ne: "attrs' \<noteq> []"
    define n where "n = length attrs'"
    from ne have n: "0 < n" "last attrs' = attrs' ! (n - 1)" "n - 1 < length attrs'"
      by (simp_all add: n_def last_conv_nth)
    from n(1) have nn: "int (n - 1) + 1 = int n" by simp
    show "ends_clean (last attrs')"
    proof (cases "int n \<in> fst ` set m")
      case True
      with elem [OF n(3)] nn obtain v where kv: "(int n, v) \<in> set m" "attrs' ! (n - 1) = render str v"
        by auto
      from True have "int n \<le> max_index m" by (rule max_index_ge)
      moreover have "max_index m \<le> int n"
        using length_pad_attrs [of "max_index m" attrs] len by (simp add: n_def attrs0_def)
      ultimately have "int n = max_index m" by simp
      moreover have "int (length attrs) \<le> int n" using len0 len by (simp add: n_def)
      ultimately have "ends_clean (render str v)" using lastval kv(1) by auto
      with kv(2) n(2) show ?thesis by simp
    next
      case False
      with elem [OF n(3)] n(2) nn have e: "last attrs' = attrs0 ! (n - 1)" by simp
      have "\<not> max_index m > int (length attrs)"
      proof
        assume gt: "max_index m > int (length attrs)"
        then have "m \<noteq> []" by (auto simp: max_index_def)
        then have mem: "max_index m \<in> fst ` set m" by (rule max_index_mem)
        from gt have "length attrs0 = nat (max_index m)"
          by (simp add: attrs0_def pad_attrs_def)
        with len gt have "int n = max_index m" by (simp add: n_def)
        with mem False show False by simp
      qed
      then have a0: "attrs0 = attrs" by (simp add: attrs0_def pad_attrs_def)
      with len ne have "attrs \<noteq> []" by auto
      moreover from a0 len have "attrs0 ! (n - 1) = last attrs"
        using \<open>attrs \<noteq> []\<close> by (simp add: n_def last_conv_nth)
      ultimately show ?thesis using oldlast e by simp
    qed
  qed
qed

section \<open>Positional extraction\<close>




section \<open>Reading a record\<close>

text \<open>
  Claim C6. \<open>read\<close> never raises. It scans the lines of the backing store in order and
  builds the record from the first line whose stripped content starts with
  \<open>key + AM\<close>; \<open>raw_data\<close> is everything after the first \<open>AM\<close> of that stripped line, later
  delimiters kept. When no line matches, or the file does not exist, the record has
  \<open>raw_data\<close> absent and no attributes.
\<close>

theorem read_first_match_or_not_found:
  "(\<exists>r. read st key = Inr r)
   \<and> (data_file st = None \<longrightarrow>
        read st key = Inr \<lparr>record_key = Some key, raw_data = None, attributes = []\<rparr>)
   \<and> (data_file st = Some content
        \<and> (\<forall>l \<in> set (readlines content). \<not> startswith (py_strip l) (key @ [AM])) \<longrightarrow>
        read st key = Inr \<lparr>record_key = Some key, raw_data = None, attributes = []\<rparr>)
   \<and> (data_file st = Some content \<and> readlines content = pre @ l # post
        \<and> (\<forall>p \<in> set pre. \<not> startswith (py_strip p) (key @ [AM]))
        \<and> startswith (py_strip l) (key @ [AM]) \<longrightarrow>
        (\<exists>h raw. py_strip l = h @ AM # raw \<and> AM \<notin> set h
            \<and> read st key = Inr (init (Some key) (Some raw))))"
proof (intro conjI impI)
  show "\<exists>r. read st key = Inr r" by (rule read_returns)
next
  assume "data_file st = None"
  then show "read st key = Inr \<lparr>record_key = Some key, raw_data = None, attributes = []\<rparr>"
    by (simp add: read_def init_not_found)
next
  assume "data_file st = Some content
        \<and> (\<forall>l \<in> set (readlines content). \<not> startswith (py_strip l) (key @ [AM]))"
  then show "read st key = Inr \<lparr>record_key = Some key, raw_data = None, attributes = []\<rparr>"
    by (simp add: read_def scan_no_match init_not_found)
next
  assume a: "data_file st = Some content \<and> readlines content = pre @ l # post
        \<and> (\<forall>p \<in> set pre. \<not> startswith (py_strip p) (key @ [AM]))
        \<and> startswith (py_strip l) (key @ [AM])"
  then have "read st key = scan key (pre @ l # post)" by (simp add: read_def)
  with scan_first_match [of pre key l post] a
  show "\<exists>h raw. py_strip l = h @ AM # raw \<and> AM \<notin> set h
            \<and> read st key = Inr (init (Some key) (Some raw))"
    by simp
qed

text \<open>
  The theorem on a store with three lines, the second and third under key \<open>102\<close>: the
  second line is read; key \<open>10\<close> matches no line; a missing file gives the not-found record.
\<close>

theorem read_first_match_or_not_found_witness:
  "readlines ''101^John^1]2\<newline> 102^Jane^3^x \<newline>102^Dup^4'' = [''101^John^1]2\<newline>''] @ '' 102^Jane^3^x \<newline>'' # [''102^Dup^4'']
   \<and> \<not> startswith (py_strip ''101^John^1]2\<newline>'') (''102'' @ [AM])
   \<and> startswith (py_strip '' 102^Jane^3^x \<newline>'') (''102'' @ [AM])
   \<and> read \<lparr>data_file = Some ''101^John^1]2\<newline> 102^Jane^3^x \<newline>102^Dup^4'', bak_file = None\<rparr> ''102''
       = Inr \<lparr>record_key = Some ''102'', raw_data = Some ''Jane^3^x'', attributes = [''Jane'', ''3'', ''x'']\<rparr>
   \<and> read \<lparr>data_file = Some ''101^John^1]2\<newline> 102^Jane^3^x \<newline>102^Dup^4'', bak_file = None\<rparr> ''10''
       = Inr \<lparr>record_key = Some ''10'', raw_data = None, attributes = []\<rparr>
   \<and> read \<lparr>data_file = None, bak_file = None\<rparr> ''102''
       = Inr \<lparr>record_key = Some ''102'', raw_data = None, attributes = []\<rparr>"
proof -
  define c where "c = ''101^John^1]2\<newline> 102^Jane^3^x \<newline>102^Dup^4''"
  define l1 where "l1 = ''101^John^1]2\<newline>''"
  define l2 where "l2 = '' 102^Jane^3^x \<newline>''"
  define l3 where "l3 = ''102^Dup^4''"
  define st where "st = \<lparr>data_file = Some c, bak_file = None\<rparr>"
  have ls: "readlines c = [l1] @ l2 # [l3]"
    unfolding c_def l1_def l2_def l3_def by code_simp
  have n1: "\<not> startswith (py_strip l1) (''102'' @ [AM])" unfolding l1_def by code_simp
  have m: "startswith (py_strip l2) (''102'' @ [AM])" unfolding l2_def by code_simp
  have sl: "py_strip l2 = ''102'' @ AM # ''Jane^3^x''" unfolding l2_def by code_simp
  have k: "AM \<notin> set ''102''" by code_simp
  have df: "data_file st = Some c" by (simp add: st_def)
  note t = read_first_match_or_not_found
  have p4: "data_file st = Some c \<and> readlines c = [l1] @ l2 # [l3]
        \<and> (\<forall>p \<in> set [l1]. \<not> startswith (py_strip p) (''102'' @ [AM]))
        \<and> startswith (py_strip l2) (''102'' @ [AM])"
    using df ls n1 m by simp
  from t [of st "''102''" c "[l1]" l2 "[l3]", THEN conjunct2, THEN conjunct2, THEN conjunct2, THEN mp, OF p4]
  obtain h raw where hr: "py_strip l2 = h @ AM # raw" "AM \<notin> set h"
      "read st ''102'' = Inr (init (Some ''102'') (Some raw))"
    by blast
  from hr(1) sl have "h @ AM # raw = ''102'' @ AM # ''Jane^3^x''" by simp
  from split_at_first_unique [OF hr(2) k this] have "raw = ''Jane^3^x''" by simp
  moreover have "init (Some ''102'') (Some ''Jane^3^x'')
      = \<lparr>record_key = Some ''102'', raw_data = Some ''Jane^3^x'', attributes = [''Jane'', ''3'', ''x'']\<rparr>"
    by code_simp
  ultimately have 1: "read st ''102''
       = Inr \<lparr>record_key = Some ''102'', raw_data = Some ''Jane^3^x'', attributes = [''Jane'', ''3'', ''x'']\<rparr>"
    using hr(3) by simp
  have "\<forall>l \<in> set ([l1] @ l2 # [l3]). \<not> startswith (py_strip l) (''10'' @ [AM])"
    unfolding l1_def l2_def l3_def by code_simp
  with ls df have p3: "data_file st = Some c
        \<and> (\<forall>l \<in> set (readlines c). \<not> startswith (py_strip l) (''10'' @ [AM]))"
    by simp
  from t [of st "''10''" c, THEN conjunct2, THEN conjunct2, THEN conjunct1, THEN mp, OF p3]
  have 2: "read st ''10'' = Inr \<lparr>record_key = Some ''10'', raw_data = None, attributes = []\<rparr>" .
  have "data_file \<lparr>data_file = None, bak_file = None\<rparr> = None" by simp
  from t [of "\<lparr>data_file = None, bak_file = None\<rparr>" "''102''", THEN conjunct2, THEN conjunct1, THEN mp, OF this]
  have 3: "read \<lparr>data_file = None, bak_file = None\<rparr> ''102''
       = Inr \<lparr>record_key = Some ''102'', raw_data = None, attributes = []\<rparr>" .
  show ?thesis
    using ls n1 m 1 2 3 unfolding st_def c_def l1_def l2_def l3_def
    by (intro conjI)
qed

section \<open>The attributes mirror \<open>raw_data\<close>\<close>

text \<open>
  Claim C5, as the code has it. Whenever \<open>raw_data\<close> is present and not the empty string,
  the attributes of a freshly constructed record and of a record returned by \<open>read\<close> are
  \<open>raw_data\<close> split on the attribute mark. \<open>update\<close> re-establishes the equation for
  every new \<open>raw_data\<close>, the empty string included, and the lines it writes to the file
  carry that same \<open>raw_data\<close> after the key.
\<close>

theorem attributes_are_split_raw_data:
  "(raw \<noteq> [] \<longrightarrow> attributes (init k (Some raw)) = py_split AM raw)
   \<and> (read st key = Inr r \<and> raw_data r = Some raw \<and> raw \<noteq> [] \<longrightarrow>
        attributes r = py_split AM raw)
   \<and> (update str st r m = Inr (st', r') \<longrightarrow>
        (\<exists>rkey content new_raw.
            record_key r = Some rkey \<and> data_file st = Some content
          \<and> raw_data r' = Some new_raw \<and> attributes r' = py_split AM new_raw
          \<and> data_file st'
              = Some (concat (map (\<lambda>l. if startswith (py_strip l) (rkey @ [AM])
                                         then rkey @ [AM] @ new_raw @ [newline] else l)
                                  (readlines content)))))"
proof (intro conjI impI)
  assume "raw \<noteq> []"
  then show "attributes (init k (Some raw)) = py_split AM raw" by (simp add: init_def)
next
  assume a: "read st key = Inr r \<and> raw_data r = Some raw \<and> raw \<noteq> []"
  then obtain rd where "r = init (Some key) rd" using read_is_init by blast
  with a show "attributes r = py_split AM raw" using init_attributes by blast
next
  assume "update str st r m = Inr (st', r')"
  from update_Inr [OF this] obtain rkey attrs content where
    k: "record_key r = Some rkey" and df: "data_file st = Some content"
    and st': "st' = st\<lparr>bak_file := Some content,
                     data_file := Some (write_lines rkey (rkey @ [AM] @ py_join [AM] attrs @ [newline])
                                          (readlines content) [])\<rparr>"
    and r': "r' = r\<lparr>raw_data := Some (py_join [AM] attrs),
                    attributes := py_split AM (py_join [AM] attrs)\<rparr>"
    by blast
  have "raw_data r' = Some (py_join [AM] attrs)"
    and "attributes r' = py_split AM (py_join [AM] attrs)"
    using r' by simp_all
  moreover have "data_file st'
      = Some (concat (map (\<lambda>l. if startswith (py_strip l) (rkey @ [AM])
                                 then rkey @ [AM] @ py_join [AM] attrs @ [newline] else l)
                          (readlines content)))"
    using st' by (simp add: write_lines_concat cong: if_cong)
  ultimately show "\<exists>rkey content new_raw.
            record_key r = Some rkey \<and> data_file st = Some content
          \<and> raw_data r' = Some new_raw \<and> attributes r' = py_split AM new_raw
          \<and> data_file st'
              = Some (concat (map (\<lambda>l. if startswith (py_strip l) (rkey @ [AM])
                                         then rkey @ [AM] @ new_raw @ [newline] else l)
                                  (readlines content)))"
    using k df by blast
qed

text \<open>
  The claim as written includes the empty string: there the constructor leaves the
  attributes empty, while the split of the empty string is the list of one empty string.
  A line that holds the key and the attribute mark only is read into such a record.
\<close>

theorem empty_raw_data_counterexample:
  "raw_data (init (Some ''7'') (Some [])) = Some []
   \<and> attributes (init (Some ''7'') (Some [])) = []
   \<and> py_split AM [] = [[]]
   \<and> read \<lparr>data_file = Some ''7^\<newline>'', bak_file = None\<rparr> ''7''
       = Inr \<lparr>record_key = Some ''7'', raw_data = Some [], attributes = []\<rparr>"
  by code_simp

text \<open>The theorem on the line \<open>7^a^b\<close>, constructed, read, and updated at position 3.\<close>

theorem attributes_are_split_raw_data_witness:
  "attributes (init (Some ''7'') (Some ''a^b'')) = py_split AM ''a^b''
   \<and> read \<lparr>data_file = Some ''7^a^b\<newline>'', bak_file = None\<rparr> ''7''
       = Inr \<lparr>record_key = Some ''7'', raw_data = Some ''a^b'', attributes = [''a'', ''b'']\<rparr>
   \<and> attributes \<lparr>record_key = Some ''7'', raw_data = Some ''a^b'', attributes = [''a'', ''b'']\<rparr> = py_split AM ''a^b''
   \<and> update (\<lambda>s. s) \<lparr>data_file = Some ''7^a^b\<newline>'', bak_file = None\<rparr>
         \<lparr>record_key = Some ''7'', raw_data = Some ''a^b'', attributes = [''a'', ''b'']\<rparr> [(3, Scalar ''c'')]
       = Inr (\<lparr>data_file = Some ''7^a^b^c\<newline>'', bak_file = Some ''7^a^b\<newline>''\<rparr>,
              \<lparr>record_key = Some ''7'', raw_data = Some ''a^b^c'', attributes = [''a'', ''b'', ''c'']\<rparr>)
   \<and> attributes \<lparr>record_key = Some ''7'', raw_data = Some ''a^b^c'', attributes = [''a'', ''b'', ''c'']\<rparr>
       = py_split AM ''a^b^c''"
proof -
  define st where "st = \<lparr>data_file = Some ''7^a^b\<newline>'', bak_file = None\<rparr>"
  define r where "r = \<lparr>record_key = Some ''7'', raw_data = Some ''a^b'', attributes = [''a'', ''b'']\<rparr>"
  define st' where "st' = \<lparr>data_file = Some ''7^a^b^c\<newline>'', bak_file = Some ''7^a^b\<newline>''\<rparr>"
  define r' where "r' = \<lparr>record_key = Some ''7'', raw_data = Some ''a^b^c'', attributes = [''a'', ''b'', ''c'']\<rparr>"
  define m :: "string attribute_map" where "m = [(3, Scalar ''c'')]"
  note t = attributes_are_split_raw_data
  have ne: "''a^b'' \<noteq> []" by simp
  from t [of "''a^b''" "Some ''7''", THEN conjunct1, THEN mp, OF ne]
  have 1: "attributes (init (Some ''7'') (Some ''a^b'')) = py_split AM ''a^b''" .
  have rd: "read st ''7'' = Inr r" unfolding st_def r_def by code_simp
  have "raw_data r = Some ''a^b''" by (simp add: r_def)
  with rd ne have "read st ''7'' = Inr r \<and> raw_data r = Some ''a^b'' \<and> ''a^b'' \<noteq> []" by simp
  from t [of "''a^b''" k st "''7''" r, THEN conjunct2, THEN conjunct1, THEN mp, OF this]
  have 2: "attributes r = py_split AM ''a^b''" .
  have up: "update (\<lambda>s. s) st r m = Inr (st', r')"
    unfolding st_def r_def st'_def r'_def m_def by code_simp
  from t [of "''a^b''" k st "''7''" r "\<lambda>s. s" m st' r', THEN conjunct2, THEN conjunct2, THEN mp, OF up]
  obtain new_raw where nr: "raw_data r' = Some new_raw" "attributes r' = py_split AM new_raw"
    by blast
  have "raw_data r' = Some ''a^b^c''" by (simp add: r'_def)
  with nr have 3: "attributes r' = py_split AM ''a^b^c''" by simp
  show ?thesis
    using 1 rd 2 up 3 unfolding st_def r_def st'_def r'_def m_def
    by (intro conjI)
qed

section \<open>A line with an empty attribute portion\<close>

text \<open>
  Claim C10. A record whose \<open>raw_data\<close> is the empty string is handled as not found:
  the constructor gives it no attributes (not the list of one empty string), \<open>to_json\<close>
  returns \<open>None\<close>, and \<open>get_legacy_client\<close> answers with the 404 response of
  \<open>not_found\<close>. A first matching line that is the key and the attribute mark only (the key
  without attribute mark) is read into such a record.
\<close>

theorem empty_attribute_portion_is_not_found:
  "attributes (init k (Some [])) = []
   \<and> attributes (init k (Some [])) \<noteq> [[]]
   \<and> to_json lib (init k (Some [])) pn pd latest = None
   \<and> (raw_data r = Some [] \<longrightarrow> to_json lib r pn pd latest = None)
   \<and> (read st cid = Inr r \<and> raw_data r = Some [] \<longrightarrow>
        get_legacy_client lib st url args cid = (StatusMessage 404 (''Not found '' @ url), 404))
   \<and> (data_file st = Some content \<and> readlines content = pre @ l # post
        \<and> (\<forall>p \<in> set pre. \<not> startswith (py_strip p) (cid @ [AM]))
        \<and> py_strip l = cid @ [AM] \<and> AM \<notin> set cid \<longrightarrow>
        read st cid = Inr \<lparr>record_key = Some cid, raw_data = Some [], attributes = []\<rparr>
        \<and> get_legacy_client lib st url args cid = (StatusMessage 404 (''Not found '' @ url), 404))"
proof (intro conjI impI)
  show "attributes (init k (Some [])) = []" by (simp add: init_def)
  show "attributes (init k (Some [])) \<noteq> [[]]" by (simp add: init_def)
  show "to_json lib (init k (Some [])) pn pd latest = None" by (simp add: to_json_def init_def)
next
  assume "raw_data r = Some []"
  then show "to_json lib r pn pd latest = None" by (rule to_json_empty_raw)
next
  assume "read st cid = Inr r \<and> raw_data r = Some []"
  then show "get_legacy_client lib st url args cid = (StatusMessage 404 (''Not found '' @ url), 404)"
    by (simp add: get_legacy_client_empty_raw not_found_def)
next
  assume a: "data_file st = Some content \<and> readlines content = pre @ l # post
        \<and> (\<forall>p \<in> set pre. \<not> startswith (py_strip p) (cid @ [AM]))
        \<and> py_strip l = cid @ [AM] \<and> AM \<notin> set cid"
  then have rd: "read st cid = Inr (init (Some cid) (Some []))"
    using read_key_only_line [of st content pre l post cid] by blast
  then show "read st cid = Inr \<lparr>record_key = Some cid, raw_data = Some [], attributes = []\<rparr>"
    by (simp add: init_def)
  from rd have "get_legacy_client lib st url args cid = not_found url"
    by (rule get_legacy_client_empty_raw) (simp add: init_def)
  then show "get_legacy_client lib st url args cid = (StatusMessage 404 (''Not found '' @ url), 404)"
    by (simp add: not_found_def)
qed

text \<open>The theorem on a store whose second line is \<open>7^\<close>.\<close>

theorem empty_attribute_portion_is_not_found_witness:
  "readlines ''6^x\<newline>7^\<newline>'' = [''6^x\<newline>''] @ ''7^\<newline>'' # []
   \<and> \<not> startswith (py_strip ''6^x\<newline>'') (''7'' @ [AM])
   \<and> py_strip ''7^\<newline>'' = ''7'' @ [AM]
   \<and> read \<lparr>data_file = Some ''6^x\<newline>7^\<newline>'', bak_file = None\<rparr> ''7''
        = Inr \<lparr>record_key = Some ''7'', raw_data = Some [], attributes = []\<rparr>
   \<and> to_json \<lparr>Decimal = (\<lambda>s. None :: unit option), str_decimal = (\<lambda>n. []),
               strptime_date = (\<lambda>s. None :: unit option), str_date = (\<lambda>d. [])\<rparr>
         \<lparr>record_key = Some ''7'', raw_data = Some [], attributes = []\<rparr> True True ''last'' = None
   \<and> get_legacy_client \<lparr>Decimal = (\<lambda>s. None :: unit option), str_decimal = (\<lambda>n. []),
               strptime_date = (\<lambda>s. None :: unit option), str_date = (\<lambda>d. [])\<rparr>
         \<lparr>data_file = Some ''6^x\<newline>7^\<newline>'', bak_file = None\<rparr> ''/get_legacy_client/7'' Map.empty ''7''
        = (StatusMessage 404 ''Not found /get_legacy_client/7'', 404)"
proof -
  define c where "c = ''6^x\<newline>7^\<newline>''"
  define l1 where "l1 = ''6^x\<newline>''"
  define l2 where "l2 = ''7^\<newline>''"
  define st where "st = \<lparr>data_file = Some c, bak_file = None\<rparr>"
  define r where "r = \<lparr>record_key = Some ''7'', raw_data = Some [], attributes = []\<rparr>"
  define lib :: "(unit, unit) pylib" where
    "lib = \<lparr>Decimal = (\<lambda>s. None), str_decimal = (\<lambda>n. []), strptime_date = (\<lambda>s. None), str_date = (\<lambda>d. [])\<rparr>"
  define url where "url = ''/get_legacy_client/7''"
  have ls: "readlines c = [l1] @ l2 # []" unfolding c_def l1_def l2_def by code_simp
  have n1: "\<not> startswith (py_strip l1) (''7'' @ [AM])" unfolding l1_def by code_simp
  have sl: "py_strip l2 = ''7'' @ [AM]" unfolding l2_def by code_simp
  have k: "AM \<notin> set ''7''" by code_simp
  have p: "data_file st = Some c \<and> readlines c = [l1] @ l2 # []
        \<and> (\<forall>p \<in> set [l1]. \<not> startswith (py_strip p) (''7'' @ [AM]))
        \<and> py_strip l2 = ''7'' @ [AM] \<and> AM \<notin> set ''7''"
    using ls n1 sl k by (simp add: st_def)
  note t = empty_attribute_portion_is_not_found [of _ lib True True "''last''" r st "''7''" url Map.empty c "[l1]" l2 "[]"]
  from t [THEN conjunct2, THEN conjunct2, THEN conjunct2, THEN conjunct2, THEN conjunct2, THEN mp, OF p]
  have 1: "read st ''7'' = Inr r"
    and 2: "get_legacy_client lib st url Map.empty ''7'' = (StatusMessage 404 (''Not found '' @ url), 404)"
    unfolding r_def by blast+
  have "raw_data r = Some []" by (simp add: r_def)
  from t [THEN conjunct2, THEN conjunct2, THEN conjunct2, THEN conjunct1, THEN mp, OF this]
  have 3: "to_json lib r True True ''last'' = None" .
  have u: "''Not found '' @ url = ''Not found /get_legacy_client/7''" by (simp add: url_def)
  show ?thesis
    using ls n1 sl 1 3 2 unfolding u unfolding st_def c_def l1_def l2_def r_def lib_def url_def
    by (intro conjI)
qed

section \<open>The current balance\<close>

text \<open>
  Claim C8. The balance list of \<open>to_json\<close> is the value list of attribute 2 with the
  empty entries dropped. Each balance is shown as \<open>str(Decimal(b))\<close> when numbers are
  parsed and \<open>Decimal\<close> accepts it, and as it stands otherwise; the balance history of
  the projection is the list of the balances so shown. When the list is not empty, the
  current balance is its first element, so shown, for the policy \<open>first\<close>, and its last
  element for every other policy; when it is empty, the current balance is absent. A
  record with \<open>raw_data\<close> has a projection.
\<close>

theorem current_balance_first_or_last:
  "multivalues r 2 = filter (\<lambda>b. b \<noteq> []) (py_split VM (extract_pos r 2 None None))
   \<and> (raw_data r \<noteq> None \<and> raw_data r \<noteq> Some [] \<longrightarrow> (\<exists>p. to_json lib r pn pd latest = Some p))
   \<and> (to_json lib r pn pd latest = Some j \<longrightarrow>
        (let shown = (\<lambda>b. if pn then (case Decimal lib b of None \<Rightarrow> b | Some n \<Rightarrow> str_decimal lib n)
                           else b)
         in legacy_balances_history j = map shown (multivalues r 2)
          \<and> (multivalues r 2 \<noteq> [] \<and> latest = ''first'' \<longrightarrow>
               current_balance j = Some (shown (hd (multivalues r 2))))
          \<and> (multivalues r 2 \<noteq> [] \<and> latest \<noteq> ''first'' \<longrightarrow>
               current_balance j = Some (shown (last (multivalues r 2))))
          \<and> (multivalues r 2 = [] \<longrightarrow> current_balance j = None)))"
proof (intro conjI impI)
  show "multivalues r 2 = filter (\<lambda>b. b \<noteq> []) (py_split VM (extract_pos r 2 None None))"
    by (rule multivalues_filter)
next
  assume "raw_data r \<noteq> None \<and> raw_data r \<noteq> Some []"
  then show "\<exists>p. to_json lib r pn pd latest = Some p"
    by (simp add: to_json_def Let_def del: not_None_eq)
next
  assume j: "to_json lib r pn pd latest = Some j"
  define shown where
    "shown = (\<lambda>b. if pn then (case Decimal lib b of None \<Rightarrow> b | Some n \<Rightarrow> str_decimal lib n) else b)"
  define bs where "bs = multivalues r 2"
  define pbs where "pbs = parsed_balances lib pn r"
  have sh: "map (py_str (str_decimal lib)) pbs = map shown bs"
    by (simp add: pbs_def parsed_balances_def py_str_parse_each shown_def bs_def)
  have len: "length pbs = length bs"
    by (simp add: pbs_def bs_def parsed_balances_def length_parse_each)
  from j have hist: "legacy_balances_history j = map (py_str (str_decimal lib)) pbs"
    and cur: "current_balance j = map_option (py_str (str_decimal lib)) (select_current latest pbs)"
    by (auto simp: to_json_def Let_def pbs_def split: if_splits)
  have 1: "legacy_balances_history j = map shown bs" using hist sh by simp
  have 2: "current_balance j = Some (shown (hd bs))" if "bs \<noteq> []" "latest = ''first''"
  proof -
    from that len have "pbs \<noteq> []" by auto
    with cur that have "current_balance j = Some (hd (map (py_str (str_decimal lib)) pbs))"
      by (simp add: select_current_def hd_map)
    with sh that show ?thesis by (simp add: hd_map)
  qed
  have 3: "current_balance j = Some (shown (last bs))" if "bs \<noteq> []" "latest \<noteq> ''first''"
  proof -
    from that len have "pbs \<noteq> []" by auto
    with cur that have "current_balance j = Some (last (map (py_str (str_decimal lib)) pbs))"
      by (simp add: select_current_def last_map)
    with sh that show ?thesis by (simp add: last_map)
  qed
  have 4: "current_balance j = None" if "bs = []"
  proof -
    from that len have "pbs = []" by simp
    with cur show ?thesis by (simp add: select_current_def)
  qed
  from 1 2 3 4 have "legacy_balances_history j = map shown bs
          \<and> (bs \<noteq> [] \<and> latest = ''first'' \<longrightarrow> current_balance j = Some (shown (hd bs)))
          \<and> (bs \<noteq> [] \<and> latest \<noteq> ''first'' \<longrightarrow> current_balance j = Some (shown (last bs)))
          \<and> (bs = [] \<longrightarrow> current_balance j = None)"
    by blast
  then show "let shown = (\<lambda>b. if pn then (case Decimal lib b of None \<Rightarrow> b | Some n \<Rightarrow> str_decimal lib n)
                           else b)
         in legacy_balances_history j = map shown (multivalues r 2)
          \<and> (multivalues r 2 \<noteq> [] \<and> latest = ''first'' \<longrightarrow>
               current_balance j = Some (shown (hd (multivalues r 2))))
          \<and> (multivalues r 2 \<noteq> [] \<and> latest \<noteq> ''first'' \<longrightarrow>
               current_balance j = Some (shown (last (multivalues r 2))))
          \<and> (multivalues r 2 = [] \<longrightarrow> current_balance j = None)"
    unfolding Let_def shown_def bs_def .
qed

text \<open>
  The theorem on the balances \<open>+2500.00]]400.00]+12.50\<close>, with a \<open>Decimal\<close> that reads a
  leading plus sign away and nothing else: both policies with numbers parsed, the policy
  \<open>last\<close> without, and a record whose attribute 2 is empty.
\<close>

theorem current_balance_first_or_last_witness:
  "multivalues (init (Some ''101'') (Some ''John Doe^+2500.00]]400.00]+12.50^2023-11-01'')) 2
     = [''+2500.00'', ''400.00'', ''+12.50'']
   \<and> map_option current_balance
        (to_json \<lparr>Decimal = (\<lambda>s. if s = ''x'' then None else Some (dropWhile (\<lambda>c. c = CHR ''+'') s)),
                  str_decimal = (\<lambda>n. n), strptime_date = (\<lambda>s. Some s), str_date = (\<lambda>d. d)\<rparr>
           (init (Some ''101'') (Some ''John Doe^+2500.00]]400.00]+12.50^2023-11-01'')) True True ''last'')
       = Some (Some ''12.50'')
   \<and> map_option current_balance
        (to_json \<lparr>Decimal = (\<lambda>s. if s = ''x'' then None else Some (dropWhile (\<lambda>c. c = CHR ''+'') s)),
                  str_decimal = (\<lambda>n. n), strptime_date = (\<lambda>s. Some s), str_date = (\<lambda>d. d)\<rparr>
           (init (Some ''101'') (Some ''John Doe^+2500.00]]400.00]+12.50^2023-11-01'')) True True ''first'')
       = Some (Some ''2500.00'')
   \<and> map_option current_balance
        (to_json \<lparr>Decimal = (\<lambda>s. if s = ''x'' then None else Some (dropWhile (\<lambda>c. c = CHR ''+'') s)),
                  str_decimal = (\<lambda>n. n), strptime_date = (\<lambda>s. Some s), str_date = (\<lambda>d. d)\<rparr>
           (init (Some ''101'') (Some ''John Doe^+2500.00]]400.00]+12.50^2023-11-01'')) False True ''last'')
       = Some (Some ''+12.50'')
   \<and> map_option current_balance
        (to_json \<lparr>Decimal = (\<lambda>s. if s = ''x'' then None else Some (dropWhile (\<lambda>c. c = CHR ''+'') s)),
                  str_decimal = (\<lambda>n. n), strptime_date = (\<lambda>s. Some s), str_date = (\<lambda>d. d)\<rparr>
           (init (Some ''103'') (Some ''Alex Chen^^2024-04-20'')) True True ''last'')
       = Some None"
proof -
  define lib :: "(string, string) pylib" where
    "lib = \<lparr>Decimal = (\<lambda>s. if s = ''x'' then None else Some (dropWhile (\<lambda>c. c = CHR ''+'') s)),
            str_decimal = (\<lambda>n. n), strptime_date = (\<lambda>s. Some s), str_date = (\<lambda>d. d)\<rparr>"
  define r where "r = init (Some ''101'') (Some ''John Doe^+2500.00]]400.00]+12.50^2023-11-01'')"
  define q where "q = init (Some ''103'') (Some ''Alex Chen^^2024-04-20'')"
  define b1 where "b1 = ''+2500.00''"
  define b3 where "b3 = ''+12.50''"
  define bs where "bs = [b1, ''400.00'', b3]"
  define last_s where "last_s = ''last''"
  define first_s where "first_s = ''first''"
  have mv: "multivalues r 2 = bs" unfolding r_def bs_def b1_def b3_def by code_simp
  have mq: "multivalues q 2 = []" unfolding q_def by code_simp
  have ne: "bs \<noteq> []" "hd bs = b1" "last bs = b3" by (simp_all add: bs_def)
  have lf: "last_s \<noteq> ''first''" unfolding last_s_def by code_simp
  have d1: "Decimal lib b1 = Some ''2500.00''" unfolding lib_def b1_def by code_simp
  have d3: "Decimal lib b3 = Some ''12.50''" unfolding lib_def b3_def by code_simp
  have sd: "str_decimal lib n = n" for n by (simp add: lib_def)
  have raw_r: "raw_data r \<noteq> None \<and> raw_data r \<noteq> Some []" unfolding r_def by code_simp
  have raw_q: "raw_data q \<noteq> None \<and> raw_data q \<noteq> Some []" unfolding q_def by code_simp
  note t = current_balance_first_or_last
  from t [of r lib True True last_s, THEN conjunct2, THEN conjunct1, THEN mp, OF raw_r]
  obtain j1 where j1: "to_json lib r True True last_s = Some j1" by blast
  from t [of r lib True True first_s, THEN conjunct2, THEN conjunct1, THEN mp, OF raw_r]
  obtain j2 where j2: "to_json lib r True True first_s = Some j2" by blast
  from t [of r lib False True last_s, THEN conjunct2, THEN conjunct1, THEN mp, OF raw_r]
  obtain j3 where j3: "to_json lib r False True last_s = Some j3" by blast
  from t [of q lib True True last_s, THEN conjunct2, THEN conjunct1, THEN mp, OF raw_q]
  obtain j4 where j4: "to_json lib q True True last_s = Some j4" by blast
  from t [of r lib True True last_s j1, THEN conjunct2, THEN conjunct2, THEN mp, OF j1]
  have 1: "current_balance j1 = Some ''12.50''"
    unfolding Let_def mv using ne lf d3 sd by simp
  from t [of r lib True True first_s j2, THEN conjunct2, THEN conjunct2, THEN mp, OF j2]
  have 2: "current_balance j2 = Some ''2500.00''"
    unfolding Let_def mv using ne d1 sd by (simp add: first_s_def)
  from t [of r lib False True last_s j3, THEN conjunct2, THEN conjunct2, THEN mp, OF j3]
  have 3: "current_balance j3 = Some b3"
    unfolding Let_def mv using ne lf by simp
  from t [of q lib True True last_s j4, THEN conjunct2, THEN conjunct2, THEN mp, OF j4]
  have 4: "current_balance j4 = None"
    unfolding Let_def mq by simp
  have "multivalues r 2 = bs
     \<and> map_option current_balance (to_json lib r True True last_s) = Some (Some ''12.50'')
     \<and> map_option current_balance (to_json lib r True True first_s) = Some (Some ''2500.00'')
     \<and> map_option current_balance (to_json lib r False True last_s) = Some (Some b3)
     \<and> map_option current_balance (to_json lib q True True last_s) = Some None"
    using mv 1 2 3 4 j1 j2 j3 j4 by simp
  then show ?thesis
    unfolding r_def q_def lib_def bs_def b1_def b3_def last_s_def first_s_def .
qed

section \<open>The transactions of the projection\<close>

text \<open>
  Claim C1 asks that a transaction entry has an \<open>amount\<close> field only when a balance
  exists at its index and a \<open>date\<close> field only when a date exists. The pairing loop builds
  its entries that way, but the returned projection writes both fields into every entry
  (\<open>to_json_transactions_shape\<close>), with \<open>str(None)\<close> for the one that is missing: for
  three balances and two dates the third entry carries the date \<open>'None'\<close>.
\<close>

theorem transactions_missing_date_is_None_text:
  "map_option transactions
     (to_json \<lparr>Decimal = (\<lambda>s. Some s), str_decimal = (\<lambda>n. n), strptime_date = (\<lambda>s. Some s), str_date = (\<lambda>d. d)\<rparr>
        (init (Some ''101'') (Some ''John Doe^2500.00]400.00]12.50^2023-11-01]2023-12-01'')) True True ''last'')
   = Some [[(''amount'', ''2500.00''), (''date'', ''2023-11-01'')],
           [(''amount'', ''400.00''), (''date'', ''2023-12-01'')],
           [(''amount'', ''12.50''), (''date'', ''None'')]]"
  by code_simp

section \<open>The keys of an update request\<close>

text \<open>
  Claim C7 asks that every key of the request body is checked to be a positive integer
  before \<open>update\<close> is called. A key that \<open>int\<close> refuses is answered with status 400 and
  the store is left alone (\<open>update_legacy_client_refuses_non_integer_key\<close>), but the
  handler does not look at the sign: the key \<open>0\<close> reaches \<open>update\<close>, which overwrites the
  last attribute and answers 200, and the key \<open>-7\<close> ends in an IndexError and status 500.
\<close>

theorem update_legacy_client_accepts_key_zero:
  "update_legacy_client (\<lambda>s. s)
      \<lparr>data_file = Some ''101^John Doe^2500.00^2023-11-01\<newline>'', bak_file = None\<rparr>
      ''/update_legacy_client/101'' [(''0'', Scalar ''X'')] ''101''
   = ((Message ''Legacy record updated successfully'', 200),
      \<lparr>data_file = Some ''101^John Doe^2500.00^X\<newline>'',
        bak_file = Some ''101^John Doe^2500.00^2023-11-01\<newline>''\<rparr>)
   \<and> update_legacy_client (\<lambda>s. s)
      \<lparr>data_file = Some ''101^John Doe^2500.00^2023-11-01\<newline>'', bak_file = None\<rparr>
      ''/update_legacy_client/101'' [(''-7'', Scalar ''X'')] ''101''
   = ((MessageDetail ''Error updating legacy record'' IndexError, 500),
      \<lparr>data_file = Some ''101^John Doe^2500.00^2023-11-01\<newline>'', bak_file = None\<rparr>)
   \<and> update_legacy_client (\<lambda>s. s)
      \<lparr>data_file = Some ''101^John Doe^2500.00^2023-11-01\<newline>'', bak_file = None\<rparr>
      ''/update_legacy_client/101'' [(''1'', Scalar ''Y''), (''x1'', Scalar ''X'')] ''101''
   = ((Message ''Invalid attribute key: x1 (must be integer)'', 400),
      \<lparr>data_file = Some ''101^John Doe^2500.00^2023-11-01\<newline>'', bak_file = None\<rparr>)"
  by code_simp

section \<open>The rewrite of the backing store\<close>

text \<open>
  What a successful \<open>update\<close> writes: every line whose stripped content starts with
  \<open>key + AM\<close> is replaced by \<open>key + AM + new_raw + newline\<close>, where \<open>new_raw\<close> is the new
  \<open>raw_data\<close> of the record; every other line is written back as it was read, and the
  lines keep their order.
\<close>

lemma update_rewrites_every_matching_line:
  "update str st r m = Inr (st', r') \<and> record_key r = Some key \<and> data_file st = Some content \<longrightarrow>
     (\<exists>new_raw. raw_data r' = Some new_raw
        \<and> data_file st'
            = Some (concat (map (\<lambda>l. if startswith (py_strip l) (key @ [AM])
                                       then key @ [AM] @ new_raw @ [newline] else l)
                                (readlines content)))
        \<and> bak_file st' = Some content)"
proof
  assume a: "update str st r m = Inr (st', r') \<and> record_key r = Some key \<and> data_file st = Some content"
  from update_Inr [of str st r m st' r'] a obtain attrs where
    st': "st' = st\<lparr>bak_file := Some content,
                     data_file := Some (write_lines key (key @ [AM] @ py_join [AM] attrs @ [newline])
                                          (readlines content) [])\<rparr>"
    and r': "r' = r\<lparr>raw_data := Some (py_join [AM] attrs),
                    attributes := py_split AM (py_join [AM] attrs)\<rparr>"
    by auto
  have "raw_data r' = Some (py_join [AM] attrs)" using r' by simp
  moreover have "data_file st'
            = Some (concat (map (\<lambda>l. if startswith (py_strip l) (key @ [AM])
                                       then key @ [AM] @ py_join [AM] attrs @ [newline] else l)
                                (readlines content)))"
    using st' by (simp add: write_lines_concat cong: if_cong)
  moreover have "bak_file st' = Some content" using st' by simp
  ultimately show "\<exists>new_raw. raw_data r' = Some new_raw
        \<and> data_file st'
            = Some (concat (map (\<lambda>l. if startswith (py_strip l) (key @ [AM])
                                       then key @ [AM] @ new_raw @ [newline] else l)
                                (readlines content)))
        \<and> bak_file st' = Some content"
    by blast
qed

text \<open>
  Claim C2 asks that only the first line whose stripped content starts with \<open>key + AM\<close>
  is replaced and that every other line, a later line under the same key included, is
  written back unchanged, as \<open>replace_first\<close> does. The loop of \<open>update\<close> does not stop
  at the first match: on a store with two lines under key \<open>1\<close> both are replaced, and the
  later line \<open>1^c\<close> is lost.
\<close>

theorem update_overwrites_later_duplicate:
  "read \<lparr>data_file = Some ''1^a\<newline>2^b\<newline>1^c\<newline>'', bak_file = None\<rparr> ''1''
     = Inr \<lparr>record_key = Some ''1'', raw_data = Some ''a'', attributes = [''a'']\<rparr>
   \<and> update (\<lambda>s. s) \<lparr>data_file = Some ''1^a\<newline>2^b\<newline>1^c\<newline>'', bak_file = None\<rparr>
         \<lparr>record_key = Some ''1'', raw_data = Some ''a'', attributes = [''a'']\<rparr> [(1, Scalar ''z'')]
     = Inr (\<lparr>data_file = Some ''1^z\<newline>2^b\<newline>1^z\<newline>'', bak_file = Some ''1^a\<newline>2^b\<newline>1^c\<newline>''\<rparr>,
            \<lparr>record_key = Some ''1'', raw_data = Some ''z'', attributes = [''z'']\<rparr>)
   \<and> concat (replace_first ''1'' (''1'' @ [AM] @ ''z'' @ [newline]) (readlines ''1^a\<newline>2^b\<newline>1^c\<newline>''))
     = ''1^z\<newline>2^b\<newline>1^c\<newline>''
   \<and> ''1^z\<newline>2^b\<newline>1^z\<newline>'' \<noteq> ''1^z\<newline>2^b\<newline>1^c\<newline>''"
  by code_simp

section \<open>Updating a record that was not found\<close>

text \<open>
  Claim C9, as the code has it. Let a record have a key that no line of the backing
  store matches, and no \<open>raw_data\<close>. \<open>update\<close> with positive positions succeeds. No line
  is appended or replaced: the file is written back as the text that was read, which
  has the same lines, and which is the text of the file itself when the file holds no
  carriage return (a line end written as carriage return, or as carriage return and line
  feed, comes back as a line feed). The backup becomes a copy of the file as it was, and
  the record's \<open>raw_data\<close> and attributes become the new joined values, while a later
  \<open>read\<close> of the key still finds nothing.
\<close>

theorem update_without_matching_line:
  "record_key r = Some key \<and> key \<noteq> [] \<and> raw_data r = None \<and> data_file st = Some content
   \<and> (\<forall>l \<in> set (readlines content). \<not> startswith (py_strip l) (key @ [AM]))
   \<and> (\<forall>k \<in> fst ` set m. 1 \<le> k) \<longrightarrow>
     (\<exists>attrs st' r'.
        assign_attrs str m (pad_attrs (attributes r) (max_index m)) = Inr attrs
      \<and> update str st r m = Inr (st', r')
      \<and> data_file st' = Some (universal_newlines content)
      \<and> readlines (universal_newlines content) = readlines content
      \<and> (carriage_return \<notin> set content \<longrightarrow> data_file st' = Some content)
      \<and> bak_file st' = Some content
      \<and> raw_data r' = Some (py_join [AM] attrs)
      \<and> attributes r' = py_split AM (py_join [AM] attrs)
      \<and> read st' key = Inr \<lparr>record_key = Some key, raw_data = None, attributes = []\<rparr>)"
proof
  assume a: "record_key r = Some key \<and> key \<noteq> [] \<and> raw_data r = None \<and> data_file st = Some content
   \<and> (\<forall>l \<in> set (readlines content). \<not> startswith (py_strip l) (key @ [AM]))
   \<and> (\<forall>k \<in> fst ` set m. 1 \<le> k)"
  then have nm: "\<forall>l \<in> set (readlines content). \<not> startswith (py_strip l) (key @ [AM])" by blast
  from a assign_attrs_padded_succeeds [of m str "attributes r"] obtain attrs where
    at: "assign_attrs str m (pad_attrs (attributes r) (max_index m)) = Inr attrs"
    by blast
  define u where "u = key @ [AM] @ py_join [AM] attrs @ [newline]"
  define st' where "st' = st\<lparr>bak_file := Some content,
                     data_file := Some (write_lines key u (readlines content) [])\<rparr>"
  define r' where "r' = r\<lparr>raw_data := Some (py_join [AM] attrs),
                    attributes := py_split AM (py_join [AM] attrs)\<rparr>"
  have up: "update str st r m = Inr (st', r')"
    using update_succeeds [of r key str m attrs st content] a at
    by (simp add: st'_def r'_def u_def)
  have "write_lines key u (readlines content) [] = universal_newlines content"
    using nm by (simp add: write_lines_no_match concat_readlines)
  then have df: "data_file st' = Some (universal_newlines content)" by (simp add: st'_def)
  have idem: "universal_newlines (universal_newlines content) = universal_newlines content"
    using universal_newlines_no_cr [of content] by (rule universal_newlines_id)
  then have same: "readlines (universal_newlines content) = readlines content"
    by (simp add: readlines_def)
  have nocr: "carriage_return \<notin> set content \<longrightarrow> data_file st' = Some content"
    using df by (simp add: universal_newlines_id)
  have bf: "bak_file st' = Some content" by (simp add: st'_def)
  have "read st' key = Inr (init (Some key) None)"
    using df nm same by (simp add: read_def scan_no_match)
  then have rd: "read st' key = Inr \<lparr>record_key = Some key, raw_data = None, attributes = []\<rparr>"
    by (simp add: init_not_found)
  have "raw_data r' = Some (py_join [AM] attrs)" "attributes r' = py_split AM (py_join [AM] attrs)"
    by (simp_all add: r'_def)
  with at up df same nocr bf rd show "\<exists>attrs st' r'.
        assign_attrs str m (pad_attrs (attributes r) (max_index m)) = Inr attrs
      \<and> update str st r m = Inr (st', r')
      \<and> data_file st' = Some (universal_newlines content)
      \<and> readlines (universal_newlines content) = readlines content
      \<and> (carriage_return \<notin> set content \<longrightarrow> data_file st' = Some content)
      \<and> bak_file st' = Some content
      \<and> raw_data r' = Some (py_join [AM] attrs)
      \<and> attributes r' = py_split AM (py_join [AM] attrs)
      \<and> read st' key = Inr \<lparr>record_key = Some key, raw_data = None, attributes = []\<rparr>"
    by blast
qed

text \<open>
  The claim as written leaves the content of the store unchanged for every store. On a
  store whose lines end in carriage return and line feed, or in a carriage return alone,
  the update for the unmatched key \<open>9\<close> writes the lines back with line feeds: the file
  differs from what it was, and from its backup.
\<close>

theorem update_rewrites_line_ends_counterexample:
  "update (\<lambda>s. s)
     \<lparr>data_file = Some (''1^a'' @ [carriage_return, newline] @ ''2^b'' @ [carriage_return] @ ''3^c''),
       bak_file = None\<rparr>
     \<lparr>record_key = Some ''9'', raw_data = None, attributes = []\<rparr> [(1, Scalar ''x'')]
   = Inr (\<lparr>data_file = Some ''1^a\<newline>2^b\<newline>3^c'',
            bak_file = Some (''1^a'' @ [carriage_return, newline] @ ''2^b'' @ [carriage_return] @ ''3^c'')\<rparr>,
          \<lparr>record_key = Some ''9'', raw_data = Some ''x'', attributes = [''x'']\<rparr>)
   \<and> ''1^a\<newline>2^b\<newline>3^c'' \<noteq> ''1^a'' @ [carriage_return, newline] @ ''2^b'' @ [carriage_return] @ ''3^c''
   \<and> read \<lparr>data_file = Some (''1^a'' @ [carriage_return, newline] @ ''2^b'' @ [carriage_return] @ ''3^c''),
            bak_file = None\<rparr> ''9''
     = Inr \<lparr>record_key = Some ''9'', raw_data = None, attributes = []\<rparr>"
  by code_simp

text \<open>The theorem for key \<open>9\<close> on a store that holds key \<open>1\<close> only.\<close>

theorem update_without_matching_line_witness:
  "read \<lparr>data_file = Some ''1^a\<newline>'', bak_file = None\<rparr> ''9''
     = Inr \<lparr>record_key = Some ''9'', raw_data = None, attributes = []\<rparr>
   \<and> update (\<lambda>s. s) \<lparr>data_file = Some ''1^a\<newline>'', bak_file = None\<rparr>
         \<lparr>record_key = Some ''9'', raw_data = None, attributes = []\<rparr> [(2, Scalar ''x'')]
     = Inr (\<lparr>data_file = Some ''1^a\<newline>'', bak_file = Some ''1^a\<newline>''\<rparr>,
            \<lparr>record_key = Some ''9'', raw_data = Some ''^x'', attributes = ['''', ''x'']\<rparr>)
   \<and> read \<lparr>data_file = Some ''1^a\<newline>'', bak_file = Some ''1^a\<newline>''\<rparr> ''9''
     = Inr \<lparr>record_key = Some ''9'', raw_data = None, attributes = []\<rparr>"
proof -
  define c where "c = ''1^a\<newline>''"
  define st where "st = \<lparr>data_file = Some c, bak_file = None\<rparr>"
  define r where "r = \<lparr>record_key = Some ''9'', raw_data = None, attributes = []\<rparr>"
  define st0 where "st0 = \<lparr>data_file = Some c, bak_file = Some c\<rparr>"
  define r0 where "r0 = \<lparr>record_key = Some ''9'', raw_data = Some ''^x'', attributes = ['''', ''x'']\<rparr>"
  define m :: "string attribute_map" where "m = [(2, Scalar ''x'')]"
  have rd: "read st ''9'' = Inr r" unfolding st_def r_def c_def by code_simp
  have up: "update (\<lambda>s. s) st r m = Inr (st0, r0)"
    unfolding st_def r_def st0_def r0_def m_def c_def by code_simp
  have nm: "\<forall>l \<in> set (readlines c). \<not> startswith (py_strip l) (''9'' @ [AM])"
    unfolding c_def by code_simp
  have pos: "\<forall>k \<in> fst ` set m. 1 \<le> k" by (simp add: m_def)
  have p: "record_key r = Some ''9'' \<and> ''9'' \<noteq> [] \<and> raw_data r = None \<and> data_file st = Some c
   \<and> (\<forall>l \<in> set (readlines c). \<not> startswith (py_strip l) (''9'' @ [AM]))
   \<and> (\<forall>k \<in> fst ` set m. 1 \<le> k)"
    using nm pos by (simp add: r_def st_def)
  from update_without_matching_line [of r "''9''" st c m "\<lambda>s. s", THEN mp, OF p]
  obtain st' r' where u: "update (\<lambda>s. s) st r m = Inr (st', r')"
    and rd': "read st' ''9'' = Inr \<lparr>record_key = Some ''9'', raw_data = None, attributes = []\<rparr>"
    by blast
  from u up have "st' = st0" by simp
  with rd' have "read st0 ''9'' = Inr \<lparr>record_key = Some ''9'', raw_data = None, attributes = []\<rparr>"
    by simp
  with rd up show ?thesis
    unfolding st_def r_def st0_def r0_def m_def c_def by (intro conjI)
qed

section \<open>Update, then read again\<close>

text \<open>
  Claim C3, as the code has it. Let \<open>read\<close> find a record under a non-empty key that
  holds no attribute mark, and let the update map send distinct positive positions to
  values whose written form (\<open>str\<close> of a scalar, the elements of a sequence joined by the
  value mark) holds no attribute mark, no line feed and no carriage return. Let the
  written form that ends the line, if the map supplies it (its position is the highest of
  the map and not below the record's number of attributes), not end in whitespace. Then
  \<open>update\<close> succeeds, and reading the key again and extracting each updated position
  returns the written form of the value supplied.
\<close>

theorem update_then_read_round_trip:
  "read st key = Inr r \<and> raw_data r = Some raw \<and> key \<noteq> [] \<and> AM \<notin> set key
   \<and> distinct (map fst m)
   \<and> (\<forall>(k, v) \<in> set m. 1 \<le> k \<and> AM \<notin> set (render str v) \<and> newline \<notin> set (render str v)
          \<and> carriage_return \<notin> set (render str v))
   \<and> (\<forall>(k, v) \<in> set m. int (length (attributes r)) \<le> k \<and> k = max_index m
          \<longrightarrow> render str v = [] \<or> \<not> isspace (last (render str v)))
   \<longrightarrow> (\<exists>st' r' r2. update str st r m = Inr (st', r') \<and> read st' key = Inr r2
          \<and> (\<forall>(k, v) \<in> set m. extract_pos r2 k None None = render str v))"
proof
  assume a: "read st key = Inr r \<and> raw_data r = Some raw \<and> key \<noteq> [] \<and> AM \<notin> set key
   \<and> distinct (map fst m)
   \<and> (\<forall>(k, v) \<in> set m. 1 \<le> k \<and> AM \<notin> set (render str v) \<and> newline \<notin> set (render str v)
          \<and> carriage_return \<notin> set (render str v))
   \<and> (\<forall>(k, v) \<in> set m. int (length (attributes r)) \<le> k \<and> k = max_index m
          \<longrightarrow> render str v = [] \<or> \<not> isspace (last (render str v)))"
  then have rd: "read st key = Inr r" and raw: "raw_data r = Some raw" and kne: "key \<noteq> []"
    and kam: "AM \<notin> set key" and d: "distinct (map fst m)"
    and vals: "\<forall>(k, v) \<in> set m. 1 \<le> k \<and> AM \<notin> set (render str v) \<and> newline \<notin> set (render str v)
                 \<and> carriage_return \<notin> set (render str v)"
    and lastval: "\<forall>(k, v) \<in> set m. int (length (attributes r)) \<le> k \<and> k = max_index m
                 \<longrightarrow> ends_clean (render str v)"
    by (simp_all add: ends_clean_def)
  from read_found [OF rd raw kam] obtain content pre l post where
    df: "data_file st = Some content"
    and rl: "readlines content = pre @ l # post"
    and np: "\<forall>p \<in> set pre. \<not> startswith (py_strip p) (key @ [AM])"
    and sl: "py_strip l = key @ AM # raw"
    and r: "r = init (Some key) (Some raw)"
    by blast
  from sl have ml: "startswith (py_strip l) (key @ [AM])" by (simp add: startswith_append)
  note shape = found_record_shape [OF rd raw kam kne]
  have pos: "\<forall>k \<in> fst ` set m. 1 \<le> k" using vals by auto
  from assign_attrs_padded_succeeds [OF pos, of str "attributes r"] obtain attrs' where
    as: "assign_attrs str m (pad_attrs (attributes r) (max_index m)) = Inr attrs'"
    by blast
  note clean = updated_attrs_clean [OF d vals lastval shape(3) shape(4) as]
  define new_raw where "new_raw = py_join [AM] attrs'"
  have nrn: "newline \<notin> set new_raw"
    using set_py_join [of "[AM]" attrs'] clean(1) AM_not_newline by (auto simp: new_raw_def)
  have nrr: "carriage_return \<notin> set new_raw"
    using set_py_join [of "[AM]" attrs'] clean(1) AM_not_carriage_return
    by (auto simp: new_raw_def)
  have nrc: "ends_clean new_raw"
  proof (cases "attrs' = []")
    case True
    then show ?thesis by (simp add: new_raw_def ends_clean_def)
  next
    case False
    with clean(2) ends_clean_py_join [OF False not_isspace_AM] show ?thesis
      by (simp add: new_raw_def)
  qed
  from r have rk: "record_key r = Some key" by (simp add: init_def)
  define st' where "st' = st\<lparr>bak_file := Some content,
       data_file := Some (write_lines key (key @ [AM] @ new_raw @ [newline]) (readlines content) [])\<rparr>"
  define r' where "r' = r\<lparr>raw_data := Some new_raw, attributes := py_split AM new_raw\<rparr>"
  have up: "update str st r m = Inr (st', r')"
    using update_succeeds [OF rk kne as df] by (simp add: st'_def r'_def new_raw_def)
  define r2 where "r2 = init (Some key) (Some new_raw)"
  have "scan key (readlines (write_lines key (key @ [AM] @ new_raw @ [newline]) (readlines content) []))
          = Inr r2"
    unfolding r2_def using rl np ml kne shape(1) shape(2) kam nrn nrr nrc
    by (rule reread_updated_line)
  then have rd2: "read st' key = Inr r2" by (simp add: read_def st'_def)
  have ex: "\<forall>(k, v) \<in> set m. extract_pos r2 k None None = render str v"
  proof (clarify)
    fix k v assume kv: "(k, v) \<in> set m"
    with vals have k1: "1 \<le> k" by auto
    from clean(3) kv have idx: "nat (k - 1) < length attrs'"
      and val: "attrs' ! nat (k - 1) = render str v" by auto
    show "extract_pos r2 k None None = render str v"
    proof (cases "new_raw = []")
      case True
      then have "attributes r2 = []" by (simp add: r2_def init_def)
      then have "extract_pos r2 k None None = []"
        using k1 by (simp add: extract_pos_attr_out_of_range)
      moreover from True have "\<forall>x \<in> set attrs'. x = []"
        unfolding new_raw_def by (rule py_join_Nil) simp
      with idx val have "render str v = []" by (metis nth_mem)
      ultimately show ?thesis by simp
    next
      case False
      then have ne: "attrs' \<noteq> []" by (auto simp: new_raw_def)
      have "\<forall>x \<in> set attrs'. AM \<notin> set x" using clean(1) by blast
      with ne have "py_split AM new_raw = attrs'" unfolding new_raw_def by (rule py_split_join)
      with False have at: "attributes r2 = attrs'" by (simp add: r2_def init_def)
      from idx k1 have "k \<le> int (length (attributes r2))" using at by auto
      from extract_pos_attr [OF k1 this] at val show ?thesis by simp
    qed
  qed
  from up rd2 ex show "\<exists>st' r' r2. update str st r m = Inr (st', r') \<and> read st' key = Inr r2
          \<and> (\<forall>(k, v) \<in> set m. extract_pos r2 k None None = render str v)"
    by blast
qed

text \<open>
  The claim as written puts no condition on the key and the values. A value with an
  attribute mark is split into two attributes by the next \<open>read\<close>; a value that ends the
  line with a blank loses it to \<open>strip\<close>; a value with a line feed or a carriage return
  breaks the line: position 1 comes back as \<open>x\<close> for the values \<open>x^y\<close>, \<open>x \<close>, and \<open>x\<close>,
  line feed or carriage return, \<open>y\<close>. Under the key \<open>a^b\<close> the first attribute read back
  is a part of the key, and under the empty key \<open>update\<close> raises.
\<close>

theorem round_trip_delimiter_in_value_counterexample:
  "update (\<lambda>s. s) \<lparr>data_file = Some ''1^a\<newline>'', bak_file = None\<rparr>
         \<lparr>record_key = Some ''1'', raw_data = Some ''a'', attributes = [''a'']\<rparr> [(1, Scalar ''x^y'')]
     = Inr (\<lparr>data_file = Some ''1^x^y\<newline>'', bak_file = Some ''1^a\<newline>''\<rparr>,
            \<lparr>record_key = Some ''1'', raw_data = Some ''x^y'', attributes = [''x'', ''y'']\<rparr>)
   \<and> map_sum id (\<lambda>r2. extract_pos r2 1 None None)
         (read \<lparr>data_file = Some ''1^x^y\<newline>'', bak_file = Some ''1^a\<newline>''\<rparr> ''1'') = Inr ''x''
   \<and> update (\<lambda>s. s) \<lparr>data_file = Some ''1^a\<newline>'', bak_file = None\<rparr>
         \<lparr>record_key = Some ''1'', raw_data = Some ''a'', attributes = [''a'']\<rparr> [(1, Scalar ''x '')]
     = Inr (\<lparr>data_file = Some ''1^x \<newline>'', bak_file = Some ''1^a\<newline>''\<rparr>,
            \<lparr>record_key = Some ''1'', raw_data = Some ''x '', attributes = [''x '']\<rparr>)
   \<and> map_sum id (\<lambda>r2. extract_pos r2 1 None None)
         (read \<lparr>data_file = Some ''1^x \<newline>'', bak_file = Some ''1^a\<newline>''\<rparr> ''1'') = Inr ''x''
   \<and> update (\<lambda>s. s) \<lparr>data_file = Some ''1^a\<newline>'', bak_file = None\<rparr>
         \<lparr>record_key = Some ''1'', raw_data = Some ''a'', attributes = [''a'']\<rparr> [(1, Scalar ''x\<newline>y'')]
     = Inr (\<lparr>data_file = Some ''1^x\<newline>y\<newline>'', bak_file = Some ''1^a\<newline>''\<rparr>,
            \<lparr>record_key = Some ''1'', raw_data = Some ''x\<newline>y'', attributes = [''x\<newline>y'']\<rparr>)
   \<and> map_sum id (\<lambda>r2. extract_pos r2 1 None None)
         (read \<lparr>data_file = Some ''1^x\<newline>y\<newline>'', bak_file = Some ''1^a\<newline>''\<rparr> ''1'') = Inr ''x''
   \<and> update (\<lambda>s. s) \<lparr>data_file = Some ''1^a\<newline>'', bak_file = None\<rparr>
         \<lparr>record_key = Some ''1'', raw_data = Some ''a'', attributes = [''a'']\<rparr>
         [(1, Scalar (''x'' @ [carriage_return] @ ''y''))]
     = Inr (\<lparr>data_file = Some (''1^x'' @ [carriage_return] @ ''y\<newline>''), bak_file = Some ''1^a\<newline>''\<rparr>,
            \<lparr>record_key = Some ''1'', raw_data = Some (''x'' @ [carriage_return] @ ''y''),
              attributes = [''x'' @ [carriage_return] @ ''y'']\<rparr>)
   \<and> map_sum id (\<lambda>r2. extract_pos r2 1 None None)
         (read \<lparr>data_file = Some (''1^x'' @ [carriage_return] @ ''y\<newline>''), bak_file = Some ''1^a\<newline>''\<rparr> ''1'')
       = Inr ''x''
   \<and> read \<lparr>data_file = Some ''a^b^c\<newline>'', bak_file = None\<rparr> ''a^b''
     = Inr \<lparr>record_key = Some ''a^b'', raw_data = Some ''b^c'', attributes = [''b'', ''c'']\<rparr>
   \<and> update (\<lambda>s. s) \<lparr>data_file = Some ''a^b^c\<newline>'', bak_file = None\<rparr>
         \<lparr>record_key = Some ''a^b'', raw_data = Some ''b^c'', attributes = [''b'', ''c'']\<rparr> [(1, Scalar ''x'')]
     = Inr (\<lparr>data_file = Some ''a^b^x^c\<newline>'', bak_file = Some ''a^b^c\<newline>''\<rparr>,
            \<lparr>record_key = Some ''a^b'', raw_data = Some ''x^c'', attributes = [''x'', ''c'']\<rparr>)
   \<and> map_sum id (\<lambda>r2. extract_pos r2 1 None None)
         (read \<lparr>data_file = Some ''a^b^x^c\<newline>'', bak_file = Some ''a^b^c\<newline>''\<rparr> ''a^b'') = Inr ''b''
   \<and> read \<lparr>data_file = Some ''^a\<newline>'', bak_file = None\<rparr> []
     = Inr \<lparr>record_key = Some [], raw_data = Some ''a'', attributes = [''a'']\<rparr>
   \<and> update (\<lambda>s. s) \<lparr>data_file = Some ''^a\<newline>'', bak_file = None\<rparr>
         \<lparr>record_key = Some [], raw_data = Some ''a'', attributes = [''a'']\<rparr> [(1, Scalar ''x'')]
     = Inl ValueError"
  by code_simp

text \<open>
  The theorem on the update of the test suite, record \<open>102\<close> with a new name at
  position 1 and two balances at position 2; the new name ends in a blank, which is kept
  since it does not end the line.
\<close>

theorem update_then_read_round_trip_witness:
  "read \<lparr>data_file = Some ''101^John^5\<newline>102^Jane Smith^150.00]800.00^2024-02-10\<newline>'', bak_file = None\<rparr> ''102''
     = Inr \<lparr>record_key = Some ''102'', raw_data = Some ''Jane Smith^150.00]800.00^2024-02-10'',
            attributes = [''Jane Smith'', ''150.00]800.00'', ''2024-02-10'']\<rparr>
   \<and> update (\<lambda>s. s) \<lparr>data_file = Some ''101^John^5\<newline>102^Jane Smith^150.00]800.00^2024-02-10\<newline>'', bak_file = None\<rparr>
         \<lparr>record_key = Some ''102'', raw_data = Some ''Jane Smith^150.00]800.00^2024-02-10'',
            attributes = [''Jane Smith'', ''150.00]800.00'', ''2024-02-10'']\<rparr>
         [(1, Scalar ''Jane Doe ''), (2, Sequence [''999.99'', ''0.00''])]
     = Inr (\<lparr>data_file = Some ''101^John^5\<newline>102^Jane Doe ^999.99]0.00^2024-02-10\<newline>'',
              bak_file = Some ''101^John^5\<newline>102^Jane Smith^150.00]800.00^2024-02-10\<newline>''\<rparr>,
            \<lparr>record_key = Some ''102'', raw_data = Some ''Jane Doe ^999.99]0.00^2024-02-10'',
              attributes = [''Jane Doe '', ''999.99]0.00'', ''2024-02-10'']\<rparr>)
   \<and> read \<lparr>data_file = Some ''101^John^5\<newline>102^Jane Doe ^999.99]0.00^2024-02-10\<newline>'',
              bak_file = Some ''101^John^5\<newline>102^Jane Smith^150.00]800.00^2024-02-10\<newline>''\<rparr> ''102''
     = Inr \<lparr>record_key = Some ''102'', raw_data = Some ''Jane Doe ^999.99]0.00^2024-02-10'',
              attributes = [''Jane Doe '', ''999.99]0.00'', ''2024-02-10'']\<rparr>
   \<and> extract_pos \<lparr>record_key = Some ''102'', raw_data = Some ''Jane Doe ^999.99]0.00^2024-02-10'',
              attributes = [''Jane Doe '', ''999.99]0.00'', ''2024-02-10'']\<rparr> 1 None None = ''Jane Doe ''
   \<and> extract_pos \<lparr>record_key = Some ''102'', raw_data = Some ''Jane Doe ^999.99]0.00^2024-02-10'',
              attributes = [''Jane Doe '', ''999.99]0.00'', ''2024-02-10'']\<rparr> 2 None None = ''999.99]0.00''"
proof -
  define c where "c = ''101^John^5\<newline>102^Jane Smith^150.00]800.00^2024-02-10\<newline>''"
  define c' where "c' = ''101^John^5\<newline>102^Jane Doe ^999.99]0.00^2024-02-10\<newline>''"
  define raw where "raw = ''Jane Smith^150.00]800.00^2024-02-10''"
  define raw' where "raw' = ''Jane Doe ^999.99]0.00^2024-02-10''"
  define key where "key = ''102''"
  define v1 where "v1 = ''Jane Doe ''"
  define v2 where "v2 = ''999.99]0.00''"
  define st where "st = \<lparr>data_file = Some c, bak_file = None\<rparr>"
  define r where "r = \<lparr>record_key = Some key, raw_data = Some raw,
            attributes = [''Jane Smith'', ''150.00]800.00'', ''2024-02-10'']\<rparr>"
  define st0 where "st0 = \<lparr>data_file = Some c', bak_file = Some c\<rparr>"
  define r0 where "r0 = \<lparr>record_key = Some key, raw_data = Some raw',
              attributes = [v1, v2, ''2024-02-10'']\<rparr>"
  define m :: "string attribute_map" where
    "m = [(1, Scalar ''Jane Doe ''), (2, Sequence [''999.99'', ''0.00''])]"
  have rd: "read st key = Inr r"
    unfolding st_def r_def c_def raw_def key_def by code_simp
  have up: "update (\<lambda>s. s) st r m = Inr (st0, r0)"
    unfolding st_def r_def st0_def r0_def m_def c_def c'_def raw_def raw'_def key_def v1_def v2_def
    by code_simp
  have rd0: "read st0 key = Inr r0"
    unfolding st0_def r0_def c_def c'_def raw'_def key_def v1_def v2_def by code_simp
  have rw: "raw_data r = Some raw" by (simp add: r_def)
  have k: "key \<noteq> []" "AM \<notin> set key" unfolding key_def by code_simp+
  have dm: "distinct (map fst m)" by (simp add: m_def)
  have re: "render (\<lambda>s. s) (Scalar ''Jane Doe '') = v1"
    "render (\<lambda>s. s) (Sequence [''999.99'', ''0.00'']) = v2"
    unfolding v1_def v2_def by code_simp+
  have ok: "AM \<notin> set v1 \<and> newline \<notin> set v1 \<and> carriage_return \<notin> set v1"
    "AM \<notin> set v2 \<and> newline \<notin> set v2 \<and> carriage_return \<notin> set v2"
    unfolding v1_def v2_def by code_simp+
  have vals: "\<forall>(k, v) \<in> set m. 1 \<le> k \<and> AM \<notin> set (render (\<lambda>s. s) v)
       \<and> newline \<notin> set (render (\<lambda>s. s) v) \<and> carriage_return \<notin> set (render (\<lambda>s. s) v)"
    using ok by (simp add: m_def re)
  have len: "length (attributes r) = 3" by (simp add: r_def)
  have lastval: "\<forall>(k, v) \<in> set m. int (length (attributes r)) \<le> k \<and> k = max_index m
       \<longrightarrow> render (\<lambda>s. s) v = [] \<or> \<not> isspace (last (render (\<lambda>s. s) v))"
    by (simp add: m_def len)
  have p: "read st key = Inr r \<and> raw_data r = Some raw \<and> key \<noteq> [] \<and> AM \<notin> set key
   \<and> distinct (map fst m)
   \<and> (\<forall>(k, v) \<in> set m. 1 \<le> k \<and> AM \<notin> set (render (\<lambda>s. s) v)
       \<and> newline \<notin> set (render (\<lambda>s. s) v) \<and> carriage_return \<notin> set (render (\<lambda>s. s) v))
   \<and> (\<forall>(k, v) \<in> set m. int (length (attributes r)) \<le> k \<and> k = max_index m
       \<longrightarrow> render (\<lambda>s. s) v = [] \<or> \<not> isspace (last (render (\<lambda>s. s) v)))"
    using rd rw k dm vals lastval by (intro conjI)
  from update_then_read_round_trip [of st key r raw m "\<lambda>s. s", THEN mp, OF p]
  obtain st' r' r2 where u: "update (\<lambda>s. s) st r m = Inr (st', r')"
    and rd2: "read st' key = Inr r2"
    and ex: "\<forall>(k, v) \<in> set m. extract_pos r2 k None None = render (\<lambda>s. s) v"
    by blast
  from u up have "st' = st0" by simp
  with rd2 rd0 have "r2 = r0" by simp
  with ex have "extract_pos r0 1 None None = v1" "extract_pos r0 2 None None = v2"
    by (simp_all add: m_def re)
  with rd up rd0 show ?thesis
    unfolding st_def r_def st0_def r0_def m_def c_def c'_def raw_def raw'_def key_def v1_def v2_def
    by (intro conjI)
qed

end
